theory Spec2Isabelle
  imports Main
begin

section \<open>The turn coordinator of \<open>backend/server.js\<close>\<close>

text \<open>
  The development embeds the handler of \<open>POST /api/game/action\<close> (the spec's
  \<open>submitAction\<close>) together with the functions it calls: \<open>callLLM\<close>, the three image
  generators, \<open>generateImageWithAppropriateProvider\<close> and \<open>getFullSessionState\<close>.

  \<^item> The SQLite tables \<open>sessions\<close>, \<open>session_players\<close> and \<open>turns\<close> are lists of rows, one
    record per row, with the column names of \<open>initializeDatabase\<close>. A nullable column is
    an \<open>option\<close>. The columns that hold \<open>JSON.stringify\<close> of an array of strings are
    modelled by the list they encode.
  \<^item> A transaction is a computation on a copy of the database that returns either the
    thrown error or the new database; \<open>ROLLBACK\<close> keeps the old one.
  \<^item> The language model, the image service, the socket registry, the clock and the UUID
    generator are inputs of the handler (record \<open>env\<close>).
  \<^item> Every \<open>throw\<close> and every early \<open>return res.status(...)\<close> is a branch of the model.
\<close>

subsection \<open>JavaScript arithmetic\<close>

text \<open>The operator \<open>%\<close> truncates towards zero: the result has the sign of the dividend.\<close>

definition js_rem :: "int \<Rightarrow> int \<Rightarrow> int" where
  "js_rem a b = sgn a * (\<bar>a\<bar> mod \<bar>b\<bar>)"

text \<open>\<open>null + 1\<close> is \<open>1\<close>: in arithmetic \<open>null\<close> is coerced to \<open>0\<close>.\<close>

definition js_number :: "int option \<Rightarrow> int" where
  "js_number v = (case v of None \<Rightarrow> 0 | Some i \<Rightarrow> i)"

subsection \<open>JSON values returned by the language model\<close>

datatype json =
    JNull
  | JBool bool
  | JNum int
  | JStr string
  | JArr "json list"
  | JObj "(string \<times> json) list"

text \<open>
  Property access \<open>v.k\<close>. It is \<open>undefined\<close> (here \<open>None\<close>) on an object without the key
  and on numbers, strings, booleans and arrays (for the keys used below). On \<open>null\<close>
  it throws a \<open>TypeError\<close>; every access below happens inside the \<open>try\<close> of one attempt
  of \<open>callLLM\<close>, where a throw and a failed check have the same effect, so both are
  \<open>None\<close>. The pairs of a \<open>JObj\<close> are the object's own properties.
\<close>

fun get_prop :: "json \<Rightarrow> string \<Rightarrow> json option" where
  "get_prop (JObj kvs) k = map_of kvs k"
| "get_prop _ k = None"

fun is_string :: "json option \<Rightarrow> bool" where
  "is_string (Some (JStr s)) = True"
| "is_string _ = False"

fun is_boolean :: "json option \<Rightarrow> bool" where
  "is_boolean (Some (JBool b)) = True"
| "is_boolean _ = False"

fun is_array :: "json option \<Rightarrow> bool" where
  "is_array (Some (JArr xs)) = True"
| "is_array _ = False"

fun elements :: "json option \<Rightarrow> json list" where
  "elements (Some (JArr xs)) = xs"
| "elements _ = []"

definition is_string_array :: "json option \<Rightarrow> bool" where
  "is_string_array v = (is_array v \<and> list_all (\<lambda>x. is_string (Some x)) (elements v))"

definition valid_character :: "json \<Rightarrow> bool" where
  "valid_character c =
     (is_string (get_prop c ''name'') \<and> is_string (get_prop c ''description'') \<and>
      is_string (get_prop c ''appearance'') \<and> is_string (get_prop c ''opinionOfPlayer''))"

text \<open>Step 3 of an attempt, "Validate Structure and Types": the common keys.\<close>

definition common_keys_ok :: "json \<Rightarrow> bool" where
  "common_keys_ok j =
     (\<not> (\<not> is_string (get_prop j ''narrative'') \<or>
         \<not> is_string (get_prop j ''image_prompt'') \<or>
         \<not> is_array (get_prop j ''suggested_actions'') \<or>
         \<not> list_all (\<lambda>a. is_string (Some a)) (elements (get_prop j ''suggested_actions'')) \<or>
         \<not> is_string (get_prop j ''timeOfDay'') \<or>
         \<not> is_boolean (get_prop j ''isSameLocation'') \<or>
         \<not> is_array (get_prop j ''characters'') \<or>
         \<not> list_all valid_character (elements (get_prop j ''characters''))))"

fun string_of :: "json option \<Rightarrow> string" where
  "string_of (Some (JStr s)) = s"
| "string_of _ = []"

text \<open>
  \<open>s.trim() === ""\<close>: the string holds nothing but the white space and line
  terminators of ECMAScript. A \<open>string\<close> here is the UTF-8 encoding of the JavaScript
  string, so the characters beyond ASCII are sequences of two or three bytes: U+00A0
  (C2 A0), U+1680 (E1 9A 80), U+2000 to U+200A (E2 80 80 to E2 80 8A), U+2028 and U+2029
  (E2 80 A8, E2 80 A9), U+202F (E2 80 AF), U+205F (E2 81 9F), U+3000 (E3 80 80) and
  U+FEFF (EF BB BF).
\<close>

definition white_space3 :: "char \<Rightarrow> char \<Rightarrow> char \<Rightarrow> bool" where
  "white_space3 c1 c2 c3 =
     ((c1 = CHR 0xE1 \<and> c2 = CHR 0x9A \<and> c3 = CHR 0x80) \<or>
      (c1 = CHR 0xE2 \<and> c2 = CHR 0x80 \<and>
         c3 \<in> set [CHR 0x80, CHR 0x81, CHR 0x82, CHR 0x83, CHR 0x84, CHR 0x85, CHR 0x86,
                   CHR 0x87, CHR 0x88, CHR 0x89, CHR 0x8A, CHR 0xA8, CHR 0xA9, CHR 0xAF]) \<or>
      (c1 = CHR 0xE2 \<and> c2 = CHR 0x81 \<and> c3 = CHR 0x9F) \<or>
      (c1 = CHR 0xE3 \<and> c2 = CHR 0x80 \<and> c3 = CHR 0x80) \<or>
      (c1 = CHR 0xEF \<and> c2 = CHR 0xBB \<and> c3 = CHR 0xBF))"

fun is_blank :: "string \<Rightarrow> bool" where
  "is_blank [] = True"
| "is_blank [c1] = (c1 \<in> set [CHR 0x09, CHR 0x0A, CHR 0x0B, CHR 0x0C, CHR 0x0D, CHR 0x20])"
| "is_blank [c1, c2] =
     (if c1 \<in> set [CHR 0x09, CHR 0x0A, CHR 0x0B, CHR 0x0C, CHR 0x0D, CHR 0x20] then is_blank [c2]
      else c1 = CHR 0xC2 \<and> c2 = CHR 0xA0)"
| "is_blank (c1 # c2 # c3 # cs) =
     (if c1 \<in> set [CHR 0x09, CHR 0x0A, CHR 0x0B, CHR 0x0C, CHR 0x0D, CHR 0x20]
      then is_blank (c2 # c3 # cs)
      else if c1 = CHR 0xC2 \<and> c2 = CHR 0xA0 then is_blank (c3 # cs)
      else if white_space3 c1 c2 c3 then is_blank cs
      else False)"

text \<open>The goal fields: of turn 0 when \<open>isInitialTurn\<close>, of a later turn otherwise.\<close>

definition goal_keys_ok :: "bool \<Rightarrow> json \<Rightarrow> bool" where
  "goal_keys_ok isInitialTurn j =
     (if isInitialTurn then
        (if \<not> is_string (get_prop j ''game_goal'') \<or> is_blank (string_of (get_prop j ''game_goal''))
         then False
         else if \<not> is_string_array (get_prop j ''goal_prerequisites'') then False
         else True)
      else
        (if \<not> is_string_array (get_prop j ''updated_met_prerequisites'') then False
         else if \<not> is_boolean (get_prop j ''is_goal_met_this_turn'') then False
         else True))"

subsection \<open>\<open>callLLM\<close>\<close>

text \<open>
  What one call of the provider function (\<open>callOpenAI\<close>, \<open>callGoogle\<close>,
  \<open>callAnthropic\<close>) followed by \<open>JSON.parse\<close> gives: the call throws (network error,
  time-out, error status), the content is empty, the content is not JSON, or it parses.
\<close>

datatype llm_reply = CallError | EmptyContent | InvalidJSON | Parsed json

datatype llm_event = Attempt nat | Wait nat

text \<open>
  Steps 2 and 3 of the \<open>try\<close> of one attempt, on the reply of the provider: \<open>Some\<close> the
  returned object, \<open>None\<close> a throw.
\<close>

fun attempt_result :: "bool \<Rightarrow> llm_reply \<Rightarrow> json option" where
  "attempt_result isInitialTurn (Parsed j) =
     (if \<not> common_keys_ok j then None
      else if \<not> goal_keys_ok isInitialTurn j then None
      else Some j)"
| "attempt_result isInitialTurn _ = None"

definition valid_llm_provider :: "string \<Rightarrow> bool" where
  "valid_llm_provider p = (p = ''openai'' \<or> p = ''google'' \<or> p = ''anthropic'')"

text \<open>
  The whole \<open>try\<close> of one attempt. Step 1 dispatches on the provider, and the \<open>default\<close>
  of that \<open>switch\<close> throws inside the \<open>try\<close>.
\<close>

definition attempt_body :: "string \<Rightarrow> bool \<Rightarrow> llm_reply \<Rightarrow> json option" where
  "attempt_body providerToUse isInitialTurn reply =
     (if \<not> valid_llm_provider providerToUse then None
      else attempt_result isInitialTurn reply)"

text \<open>
  The retry loop \<open>for (let attempt = 1; attempt <= maxRetries; attempt++)\<close>. The function
  \<open>replies\<close> gives the reply to the attempt of each number. The result carries the log
  of the attempts made and of the delays waited (\<open>setTimeout\<close>, in milliseconds).
\<close>

function retry_loop ::
  "string \<Rightarrow> (nat \<Rightarrow> llm_reply) \<Rightarrow> bool \<Rightarrow> nat \<Rightarrow> nat \<Rightarrow> json option \<times> llm_event list" where
  "retry_loop providerToUse replies isInitialTurn maxRetries attempt =
     (if attempt \<le> maxRetries then
        (case attempt_body providerToUse isInitialTurn (replies attempt) of
           Some j \<Rightarrow> (Some j, [Attempt attempt])
         | None \<Rightarrow>
             (let waited = (if attempt < maxRetries then [Wait (500 * attempt)] else []);
                  rest = retry_loop providerToUse replies isInitialTurn maxRetries (attempt + 1)
              in (fst rest, Attempt attempt # waited @ snd rest)))
      else (None, []))"
  by pat_completeness auto
termination
  by (relation "measure (\<lambda>(providerToUse, replies, isInitialTurn, maxRetries, attempt).
        Suc maxRetries - attempt)") auto

declare retry_loop.simps [simp del]

datatype failure =
    NoPlayersFound
  | InvalidTurnIndex int int
  | NoHistory
  | InvalidLLMProvider
  | UndeclaredConstant string
  | LLMFailed nat
  | ImageGenerationFailed
  | InvalidImageProvider
  | ConstraintFailed
  | StateUnavailable

text \<open>
  The configuration and the collaborators of the handler. The language model and the
  image service are inputs: \<open>llm_replies\<close> gives the reply to each attempt of \<open>callLLM\<close>,
  and \<open>image_api\<close> is \<open>Some\<close> the base64 data the image request returns and \<open>None\<close> when
  the request throws or its response holds no image.
\<close>

record env =
  ACTIVE_LLM_PROVIDER :: string
  INITIAL_LLM_PROVIDER :: string
  ACTIVE_IMAGE_PROVIDER :: string
  IMAGEN_ASPECT_RATIO :: string
  llm_replies :: "nat \<Rightarrow> llm_reply"
  image_api :: "string option"
  sessionSockets :: "string \<Rightarrow> string set option"
  now :: nat
  uuidv4 :: string

text \<open>
  \<open>callLLM(promptContent, maxRetries, isInitialTurn, providerOverride, modelOverride)\<close>.
  The prompt is text handed to the provider; the reply to each attempt is an input, so
  the prompt is not a parameter here. An override that is \<open>null\<close> or the empty string
  is not taken (\<open>||\<close>). Without a model override the \<open>switch\<close> before the loop picks the
  model: the constants \<open>INITIAL_OPENAI_MODEL\<close> and \<open>INITIAL_ANTHROPIC_MODEL\<close> it reads for
  an initial turn are declared nowhere, so reading them throws a \<open>ReferenceError\<close>, and
  its \<open>default\<close> throws for a provider that is none of the three. These throws are
  outside the loop: no attempt is made.
\<close>

definition callLLM ::
  "env \<Rightarrow> nat \<Rightarrow> bool \<Rightarrow> string option \<Rightarrow> string option \<Rightarrow>
   (failure + json) \<times> llm_event list" where
  "callLLM e maxRetries isInitialTurn providerOverride modelOverride =
     (let providerToUse =
            (case providerOverride of
               Some p \<Rightarrow>
                 if p \<noteq> [] then p
                 else if isInitialTurn then INITIAL_LLM_PROVIDER e else ACTIVE_LLM_PROVIDER e
             | None \<Rightarrow> if isInitialTurn then INITIAL_LLM_PROVIDER e else ACTIVE_LLM_PROVIDER e);
          modelGiven = (case modelOverride of Some m \<Rightarrow> m \<noteq> [] | None \<Rightarrow> False)
      in
      if \<not> modelGiven \<and> providerToUse = ''openai'' \<and> isInitialTurn then
        (Inl (UndeclaredConstant ''INITIAL_OPENAI_MODEL''), [])
      else if \<not> modelGiven \<and> providerToUse = ''anthropic'' \<and> isInitialTurn then
        (Inl (UndeclaredConstant ''INITIAL_ANTHROPIC_MODEL''), [])
      else if \<not> modelGiven \<and> \<not> valid_llm_provider providerToUse then
        (Inl InvalidLLMProvider, [])
      else
        (case retry_loop providerToUse (llm_replies e) isInitialTurn maxRetries 1 of
           (Some j, log) \<Rightarrow> (Inr j, log)
         | (None, log) \<Rightarrow> (Inl (LLMFailed maxRetries), log)))"

subsection \<open>The image generators\<close>

text \<open>\<open>s.replace(":", "x")\<close> with a string pattern replaces the first occurrence only.\<close>

fun replace_colon :: "string \<Rightarrow> string" where
  "replace_colon [] = []"
| "replace_colon (c # cs) = (if c = CHR '':'' then CHR ''x'' # cs else c # replace_colon cs)"

text \<open>
  The previous image only changes what is sent to the image service, so it is not a
  parameter of the generators.
\<close>

definition generateImageWithImagen :: "env \<Rightarrow> string \<Rightarrow> string" where
  "generateImageWithImagen e prompt =
     (if prompt = [] \<or> is_blank prompt then
        ''https://via.placeholder.com/1024x576.png?text=Missing+Prompt&ratio='' @
          replace_colon (IMAGEN_ASPECT_RATIO e)
      else
        (case image_api e of
           Some base64Data \<Rightarrow>
             (if base64Data \<noteq> [] then ''data:image/png;base64,'' @ base64Data
              else ''https://via.placeholder.com/1024x576.png?text=Image+Generation+Failed&ratio='' @
                     replace_colon (IMAGEN_ASPECT_RATIO e))
         | None \<Rightarrow>
             ''https://via.placeholder.com/1024x576.png?text=Image+Generation+Failed&ratio='' @
               replace_colon (IMAGEN_ASPECT_RATIO e)))"

definition generateImageWithGoogleFlash :: "env \<Rightarrow> string \<Rightarrow> string" where
  "generateImageWithGoogleFlash e prompt =
     (case image_api e of
        Some imageData \<Rightarrow> ''data:image/png;base64,'' @ imageData
      | None \<Rightarrow> ''https://via.placeholder.com/1024x576.png?text=Image+Generation+Failed'')"

text \<open>\<open>generateImageWithOpenAI\<close> has no \<open>try\<close>: a failing request throws to the caller.\<close>

definition generateImageWithOpenAI :: "env \<Rightarrow> string \<Rightarrow> failure + string" where
  "generateImageWithOpenAI e prompt =
     (case image_api e of
        Some image_base64 \<Rightarrow> Inr (''data:image/png;base64,'' @ image_base64)
      | None \<Rightarrow> Inl ImageGenerationFailed)"

definition generateImageWithAppropriateProvider :: "env \<Rightarrow> json \<Rightarrow> failure + string" where
  "generateImageWithAppropriateProvider e turnData =
     (if ACTIVE_IMAGE_PROVIDER e = ''google'' then
        Inr (generateImageWithImagen e (string_of (get_prop turnData ''image_prompt'')))
      else if ACTIVE_IMAGE_PROVIDER e = ''google-flash'' then
        Inr (generateImageWithGoogleFlash e (string_of (get_prop turnData ''image_prompt'')))
      else if ACTIVE_IMAGE_PROVIDER e = ''openai'' then
        generateImageWithOpenAI e (string_of (get_prop turnData ''image_prompt''))
      else Inl InvalidImageProvider)"

subsection \<open>The database\<close>

record session_row =
  session_id :: string
  theme :: string
  is_multiplayer :: int
  max_players :: "int option"
  current_player_index :: "int option"
  game_goal :: "string option"
  goal_prerequisites :: "string list option"
  met_prerequisites :: "string list option"
  is_goal_met :: int
  last_updated_at :: nat

record player_row =
  player_session_id :: string
  user_id :: string
  player_index :: int
  character_name :: string
  character_gender :: string
  character_image_url :: "string option"

record turn_row =
  turn_id :: string
  turn_session_id :: string
  turn_index :: int
  scenario_text :: string
  image_url :: string
  image_prompt :: string
  suggested_actions :: "json list"
  action_taken :: "string option"
  time_of_day :: string
  is_same_location :: int
  characters :: "json list"
  acting_player_user_id :: "string option"
  acting_player_index :: "int option"
  created_at :: nat

record database =
  sessions :: "session_row list"
  session_players :: "player_row list"
  turns :: "turn_row list"

text \<open>\<open>SELECT ... FROM sessions WHERE session_id = ?\<close> through \<open>db.get\<close>: the first row.\<close>

definition get_session :: "database \<Rightarrow> string \<Rightarrow> session_row option" where
  "get_session db sessionId = find (\<lambda>s. session_id s = sessionId) (sessions db)"

text \<open>\<open>SELECT ... FROM session_players WHERE session_id = ? ORDER BY player_index ASC\<close>.\<close>

definition get_players :: "database \<Rightarrow> string \<Rightarrow> player_row list" where
  "get_players db sessionId =
     sort_key player_index (filter (\<lambda>p. player_session_id p = sessionId) (session_players db))"

text \<open>\<open>SELECT ... FROM turns WHERE session_id = ? ORDER BY turn_index ASC\<close>.\<close>

definition get_turns :: "database \<Rightarrow> string \<Rightarrow> turn_row list" where
  "get_turns db sessionId =
     sort_key turn_index (filter (\<lambda>t. turn_session_id t = sessionId) (turns db))"

text \<open>\<open>SELECT MAX(turn_index)\<close>: \<open>NULL\<close> over no rows.\<close>

fun max_index :: "int list \<Rightarrow> int option" where
  "max_index [] = None"
| "max_index (i # is) = (case max_index is of None \<Rightarrow> Some i | Some m \<Rightarrow> Some (max i m))"

definition latest_turn_index :: "database \<Rightarrow> string \<Rightarrow> int" where
  "latest_turn_index db sessionId =
     (case max_index (map turn_index (filter (\<lambda>t. turn_session_id t = sessionId) (turns db))) of
        None \<Rightarrow> - 1
      | Some m \<Rightarrow> m)"

text \<open>
  The ledger invariant of the data model, for one session: every index from 0 to the
  latest one has a turn.
\<close>

definition gapless :: "database \<Rightarrow> string \<Rightarrow> bool" where
  "gapless db sid =
     list_all (\<lambda>k. list_ex (\<lambda>t. turn_session_id t = sid \<and> turn_index t = k) (turns db))
       [0..latest_turn_index db sid]"

text \<open>
  \<open>INSERT INTO turns\<close>. The table declares \<open>turn_id TEXT PRIMARY KEY\<close> and
  \<open>UNIQUE(session_id, turn_index)\<close>; a row that breaks either makes \<open>db.run\<close> throw.
  The foreign keys hold at this point: the session row was read, and
  \<open>authenticateToken\<close> has inserted the requesting user.
\<close>

definition insert_turn :: "database \<Rightarrow> turn_row \<Rightarrow> failure + database" where
  "insert_turn db row =
     (if list_ex (\<lambda>t. turn_id t = turn_id row \<or>
                      (turn_session_id t = turn_session_id row \<and> turn_index t = turn_index row))
                 (turns db)
      then Inl ConstraintFailed
      else Inr (db\<lparr>turns := turns db @ [row]\<rparr>))"

text \<open>\<open>UPDATE sessions SET ... WHERE session_id = ?\<close>.\<close>

definition update_session ::
  "database \<Rightarrow> string \<Rightarrow> (session_row \<Rightarrow> session_row) \<Rightarrow> database" where
  "update_session db sessionId f =
     db\<lparr>sessions := map (\<lambda>s. if session_id s = sessionId then f s else s) (sessions db)\<rparr>"

subsection \<open>\<open>getFullSessionState\<close>\<close>

text \<open>
  The state document sent to the clients. The roster and the history are carried as the
  rows read from the tables; \<open>null\<close> is returned when the session row is missing.
\<close>

record full_state =
  fs_sessionId :: string
  fs_theme :: string
  fs_isMultiplayer :: bool
  fs_currentPlayerIndex :: "int option"
  fs_players :: "player_row list"
  fs_history :: "turn_row list"
  fs_gameGoal :: "string option"
  fs_goalPrerequisites :: "string list"
  fs_metPrerequisites :: "string list"
  fs_isGoalMet :: bool

definition getFullSessionState :: "database \<Rightarrow> string \<Rightarrow> full_state option" where
  "getFullSessionState db sid =
     (case get_session db sid of
        None \<Rightarrow> None
      | Some session \<Rightarrow>
          Some \<lparr> fs_sessionId = sid,
                 fs_theme = theme session,
                 fs_isMultiplayer = (is_multiplayer session \<noteq> 0),
                 fs_currentPlayerIndex = current_player_index session,
                 fs_players = get_players db sid,
                 fs_history = get_turns db sid,
                 fs_gameGoal = game_goal session,
                 fs_goalPrerequisites = (case goal_prerequisites session of None \<Rightarrow> [] | Some ps \<Rightarrow> ps),
                 fs_metPrerequisites = (case met_prerequisites session of None \<Rightarrow> [] | Some ps \<Rightarrow> ps),
                 fs_isGoalMet = (is_goal_met session \<noteq> 0) \<rparr>)"

subsection \<open>The handler of \<open>POST /api/game/action\<close>\<close>

text \<open>
  The request after \<open>authenticateToken\<close>: the three body fields (\<open>None\<close> when the field
  is \<open>undefined\<close> or \<open>null\<close>) and \<open>req.user.id\<close>. The turn index is the integer that
  \<open>parseInt(turnIndex, 10)\<close> gives.
\<close>

record request =
  body_sessionId :: "string option"
  body_action :: "string option"
  body_turnIndex :: "int option"
  requestUserId :: string

text \<open>
  The responses, by HTTP status: 400, 401, 404, 403 (not a player), 403 (not the
  player's turn), 200 with the session state, 200 with the message "Previous player
  disconnected, turn skipped." and the state, 409 "No active players available to take
  the turn.", and 500 for every error thrown inside the outer \<open>try\<close>.
\<close>

datatype response =
    MissingFields
  | MissingUserId
  | SessionNotFound
  | NotAPlayer
  | NotYourTurn
  | StateUpdate full_state
  | TurnSkipped full_state
  | NoActivePlayers
  | Failed failure

fun status :: "response \<Rightarrow> nat" where
  "status MissingFields = 400"
| "status MissingUserId = 401"
| "status SessionNotFound = 404"
| "status NotAPlayer = 403"
| "status NotYourTurn = 403"
| "status (StateUpdate st) = 200"
| "status (TurnSkipped st) = 200"
| "status NoActivePlayers = 409"
| "status (Failed f) = 500"

text \<open>
  What a call leaves behind: the database, the response, the log of the attempts and
  delays of \<open>callLLM\<close> during the call, and the state handed to
  \<open>broadcastSessionUpdate\<close>, if any.
\<close>

record outcome =
  db_after :: database
  response :: response
  llm_log :: "llm_event list"
  published :: "full_state option"

definition reply :: "database \<Rightarrow> response \<Rightarrow> outcome" where
  "reply db r = \<lparr> db_after = db, response = r, llm_log = [], published = None \<rparr>"

text \<open>\<open>sessionSockets.get(sessionId)?.has(userId) ?? false\<close>.\<close>

definition is_connected :: "env \<Rightarrow> string \<Rightarrow> string \<Rightarrow> bool" where
  "is_connected e sid uid =
     (case sessionSockets e sid of None \<Rightarrow> False | Some sessionConnections \<Rightarrow> uid \<in> sessionConnections)"

text \<open>Fields of the object \<open>callLLM\<close> returned, which it has checked to be of these types.\<close>

fun bool_of :: "json option \<Rightarrow> bool" where
  "bool_of (Some (JBool b)) = b"
| "bool_of _ = False"

definition strings_of :: "json option \<Rightarrow> string list" where
  "strings_of v = map (\<lambda>x. string_of (Some x)) (elements v)"

text \<open>The row of \<open>turnParams\<close>, with \<open>datetime('now')\<close> for \<open>created_at\<close>.\<close>

definition turnParams ::
  "env \<Rightarrow> string \<Rightarrow> json \<Rightarrow> string \<Rightarrow> string \<Rightarrow> string \<Rightarrow> player_row \<Rightarrow> int \<Rightarrow> turn_row" where
  "turnParams e sid nextTurnData newImageUrl action uid requestingPlayer newTurnIndex =
     \<lparr> turn_id = uuidv4 e,
       turn_session_id = sid,
       turn_index = newTurnIndex,
       scenario_text = string_of (get_prop nextTurnData ''narrative''),
       image_url = newImageUrl,
       image_prompt = string_of (get_prop nextTurnData ''image_prompt''),
       suggested_actions = elements (get_prop nextTurnData ''suggested_actions''),
       action_taken = Some action,
       time_of_day = string_of (get_prop nextTurnData ''timeOfDay''),
       is_same_location = (if bool_of (get_prop nextTurnData ''isSameLocation'') then 1 else 0),
       characters = elements (get_prop nextTurnData ''characters''),
       acting_player_user_id = Some uid,
       acting_player_index = Some (player_index requestingPlayer),
       created_at = now e \<rparr>"

text \<open>"Calculate next player index": \<open>(currentPlayerIndex + 1) % numPlayers\<close> when multiplayer.\<close>

definition nextPlayerIndex :: "session_row \<Rightarrow> player_row list \<Rightarrow> int option" where
  "nextPlayerIndex session players =
     (if is_multiplayer session \<noteq> 0
      then Some (js_rem (js_number (current_player_index session) + 1) (int (length players)))
      else current_player_index session)"

text \<open>\<open>isGoalMetThisTurn || session.is_goal_met === 1\<close>.\<close>

definition finalGoalMetStatus :: "json \<Rightarrow> session_row \<Rightarrow> bool" where
  "finalGoalMetStatus nextTurnData session =
     (bool_of (get_prop nextTurnData ''is_goal_met_this_turn'') \<or> is_goal_met session = 1)"

text \<open>
  The assignments of \<open>UPDATE sessions SET last_updated_at, current_player_index,
  met_prerequisites, is_goal_met\<close>, computed from the session row read in step 1.
\<close>

definition session_update ::
  "env \<Rightarrow> session_row \<Rightarrow> player_row list \<Rightarrow> json \<Rightarrow> session_row \<Rightarrow> session_row" where
  "session_update e session players nextTurnData s =
     s\<lparr> last_updated_at := now e,
        current_player_index := nextPlayerIndex session players,
        met_prerequisites := Some (strings_of (get_prop nextTurnData ''updated_met_prerequisites'')),
        is_goal_met := (if finalGoalMetStatus nextTurnData session then 1 else 0) \<rparr>"

text \<open>
  Step 4a, "PROCESS ACTION", between \<open>BEGIN\<close> and \<open>COMMIT\<close>: \<open>Inl\<close> is the error thrown
  to \<open>catch (actionError)\<close>, \<open>Inr\<close> the database to commit. The block under "Branching
  check" is empty in the source, so nothing is deleted.
\<close>

definition process_action ::
  "env \<Rightarrow> database \<Rightarrow> string \<Rightarrow> session_row \<Rightarrow> player_row list \<Rightarrow> player_row \<Rightarrow>
   string \<Rightarrow> string \<Rightarrow> int \<Rightarrow> (failure + database) \<times> llm_event list" where
  "process_action e db sid session players requestingPlayer uid action sourceTurnIndex =
     (let latestDbIndex = latest_turn_index db sid in
      if sourceTurnIndex < 0 \<or> sourceTurnIndex > latestDbIndex then
        (Inl (InvalidTurnIndex sourceTurnIndex latestDbIndex), [])
      else if filter (\<lambda>t. turn_session_id t = sid \<and> turn_index t \<le> sourceTurnIndex) (turns db) = [] then
        (Inl NoHistory, [])
      else
        (case callLLM e 3 False None None of
           (Inl err, log) \<Rightarrow> (Inl err, log)
         | (Inr nextTurnData, log) \<Rightarrow>
             (case generateImageWithAppropriateProvider e nextTurnData of
                Inl err \<Rightarrow> (Inl err, log)
              | Inr newImageUrl \<Rightarrow>
                  (case insert_turn db
                          (turnParams e sid nextTurnData newImageUrl action uid requestingPlayer
                             (sourceTurnIndex + 1)) of
                     Inl err \<Rightarrow> (Inl err, log)
                   | Inr db1 \<Rightarrow>
                       (Inr (update_session db1 sid (session_update e session players nextTurnData)),
                        log)))))"

text \<open>
  The scan of step 4b, \<open>while (checkedCount < numPlayers)\<close>. The result is
  \<open>nextConnectedPlayerIndex\<close>, \<open>-1\<close> when the loop ends without a \<open>break\<close>.
\<close>

function skip_scan :: "player_row list \<Rightarrow> (string \<Rightarrow> bool) \<Rightarrow> nat \<Rightarrow> nat \<Rightarrow> int \<Rightarrow> int" where
  "skip_scan players connected numPlayers checkedCount currentCheckIndex =
     (if checkedCount < numPlayers then
        (case find (\<lambda>p. player_index p = js_rem (currentCheckIndex + 1) (int numPlayers)) players of
           Some playerToCheck \<Rightarrow>
             (if connected (user_id playerToCheck)
              then js_rem (currentCheckIndex + 1) (int numPlayers)
              else skip_scan players connected numPlayers (checkedCount + 1)
                     (js_rem (currentCheckIndex + 1) (int numPlayers)))
         | None \<Rightarrow>
             skip_scan players connected numPlayers (checkedCount + 1)
               (js_rem (currentCheckIndex + 1) (int numPlayers)))
      else - 1)"
  by pat_completeness auto
termination
  by (relation "measure (\<lambda>(players, connected, numPlayers, checkedCount, currentCheckIndex).
        numPlayers - checkedCount)") auto

declare skip_scan.simps [simp del]

text \<open>Step 4b, "SKIP TURN".\<close>

definition skip_turn :: "env \<Rightarrow> database \<Rightarrow> string \<Rightarrow> session_row \<Rightarrow> player_row list \<Rightarrow> outcome" where
  "skip_turn e db sid session players =
     (let nextConnectedPlayerIndex =
            skip_scan players (is_connected e sid) (length players) 0
              (js_number (current_player_index session))
      in
      if nextConnectedPlayerIndex \<noteq> - 1 then
        (let db1 = update_session db sid
                     (\<lambda>s. s\<lparr> current_player_index := Some nextConnectedPlayerIndex,
                             last_updated_at := now e \<rparr>)
         in
         case getFullSessionState db1 sid of
           None \<Rightarrow> \<lparr> db_after = db1, response = Failed StateUnavailable, llm_log = [], published = None \<rparr>
         | Some updatedState \<Rightarrow>
             \<lparr> db_after = db1, response = TurnSkipped updatedState, llm_log = [],
               published = Some updatedState \<rparr>)
      else reply db NoActivePlayers)"

text \<open>
  Step 3, "Check Connection Status of Current Player": the value of
  \<open>isCurrentPlayerConnected\<close>. It starts \<open>false\<close>; in a multiplayer session with a
  roster entry for the current index it is that player's socket, and in a session that
  is not multiplayer it is \<open>true\<close>.
\<close>

definition isCurrentPlayerConnected :: "env \<Rightarrow> string \<Rightarrow> session_row \<Rightarrow> player_row list \<Rightarrow> bool" where
  "isCurrentPlayerConnected e sid session players =
     (case find (\<lambda>p. Some (player_index p) = current_player_index session) players of
        Some currentPlayerInfo \<Rightarrow>
          (if is_multiplayer session \<noteq> 0 then is_connected e sid (user_id currentPlayerInfo)
           else True)
      | None \<Rightarrow> (if is_multiplayer session \<noteq> 0 then False else True))"

text \<open>
  Step 4a with its transaction: \<open>catch (actionError)\<close> rolls back and rethrows to the
  outer \<open>catch\<close>, which answers 500; after \<open>COMMIT\<close> the state is read again, published
  and returned.
\<close>

definition action_branch ::
  "env \<Rightarrow> database \<Rightarrow> string \<Rightarrow> session_row \<Rightarrow> player_row list \<Rightarrow> player_row \<Rightarrow>
   string \<Rightarrow> string \<Rightarrow> int \<Rightarrow> outcome" where
  "action_branch e db sid session players requestingPlayer uid action sourceTurnIndex =
     (case process_action e db sid session players requestingPlayer uid action sourceTurnIndex of
        (Inl err, log) \<Rightarrow>
          \<lparr> db_after = db, response = Failed err, llm_log = log, published = None \<rparr>
      | (Inr db1, log) \<Rightarrow>
          (case getFullSessionState db1 sid of
             None \<Rightarrow>
               \<lparr> db_after = db1, response = Failed StateUnavailable, llm_log = log,
                 published = None \<rparr>
           | Some responsePayload \<Rightarrow>
               \<lparr> db_after = db1, response = StateUpdate responsePayload, llm_log = log,
                 published = Some responsePayload \<rparr>))"

text \<open>Step 4, "Handle Action OR Skip Turn".\<close>

definition action_or_skip ::
  "env \<Rightarrow> database \<Rightarrow> string \<Rightarrow> session_row \<Rightarrow> player_row list \<Rightarrow> player_row \<Rightarrow>
   string \<Rightarrow> string \<Rightarrow> int \<Rightarrow> outcome" where
  "action_or_skip e db sid session players requestingPlayer uid action sourceTurnIndex =
     (if isCurrentPlayerConnected e sid session players
      then action_branch e db sid session players requestingPlayer uid action sourceTurnIndex
      else skip_turn e db sid session players)"

text \<open>The whole handler, in the order of the source: the body checks, steps 1 and 2, then 3 and 4.\<close>

definition submitAction :: "env \<Rightarrow> database \<Rightarrow> request \<Rightarrow> outcome" where
  "submitAction e db req =
     (case (body_sessionId req, body_action req, body_turnIndex req) of
        (Some sid, Some action, Some sourceTurnIndex) \<Rightarrow>
          if sid = [] then reply db MissingFields
          else if requestUserId req = [] then reply db MissingUserId
          else
            (case get_session db sid of
               None \<Rightarrow> reply db SessionNotFound
             | Some session \<Rightarrow>
                 if get_players db sid = [] then reply db (Failed NoPlayersFound)
                 else
                   (case find (\<lambda>p. user_id p = requestUserId req) (get_players db sid) of
                      None \<Rightarrow> reply db NotAPlayer
                    | Some requestingPlayer \<Rightarrow>
                        if is_multiplayer session \<noteq> 0 \<and>
                           current_player_index session \<noteq> Some (player_index requestingPlayer)
                        then reply db NotYourTurn
                        else action_or_skip e db sid session (get_players db sid) requestingPlayer
                               (requestUserId req) action sourceTurnIndex))
      | _ \<Rightarrow> reply db MissingFields)"

subsection \<open>The scan in the words of the specification\<close>

text \<open>
  This definition follows the specification, not the source; the scan of step 4b is
  compared with it below. "Scan roster starting from \<open>(current+1) mod playerCount\<close>,
  wrapping at most once through every roster slot, and advance \<open>current_player_index\<close>
  to the first player index found connected": the slots in the order of the scan, and
  the first of them that is the index of a connected player of the roster.
\<close>

definition spec_scan_order :: "int \<Rightarrow> nat \<Rightarrow> int list" where
  "spec_scan_order current playerCount =
     map (\<lambda>d. (current + int d) mod int playerCount) [1..<Suc playerCount]"

definition spec_first_connected :: "player_row list \<Rightarrow> (string \<Rightarrow> bool) \<Rightarrow> int \<Rightarrow> int option" where
  "spec_first_connected roster connected current =
     find (\<lambda>k. list_ex (\<lambda>p. player_index p = k \<and> connected (user_id p)) roster)
       (spec_scan_order current (length roster))"

subsection \<open>Sample data\<close>

text \<open>
  A session \<open>s1\<close> with the roster \<open>u0\<close>, \<open>u1\<close>, \<open>u2\<close>, \<open>u3\<close> at the indices 0 to 3, a
  ledger of the given turn indices, and a reply of the language model that passes the
  checks of a later turn. The theorems below are run on them.
\<close>

definition turn_reply :: "string list \<Rightarrow> bool \<Rightarrow> json" where
  "turn_reply met goal =
     JObj [(''narrative'', JStr ''The door creaks open.''),
           (''image_prompt'', JStr ''A dusty hall''),
           (''suggested_actions'', JArr [JStr ''Look around'', JStr ''Leave'']),
           (''timeOfDay'', JStr ''dusk''),
           (''isSameLocation'', JBool True),
           (''characters'', JArr []),
           (''updated_met_prerequisites'', JArr (map JStr met)),
           (''is_goal_met_this_turn'', JBool goal)]"

definition roster_entry :: "string \<Rightarrow> int \<Rightarrow> player_row" where
  "roster_entry uid i =
     \<lparr> player_session_id = ''s1'', user_id = uid, player_index = i, character_name = uid,
       character_gender = ''any'', character_image_url = None \<rparr>"

definition ledger_turn :: "int \<Rightarrow> turn_row" where
  "ledger_turn i =
     \<lparr> turn_id = (if i = 0 then ''t0'' else if i = 1 then ''t1'' else ''tn''),
       turn_session_id = ''s1'', turn_index = i, scenario_text = ''A locked room.'',
       image_url = ''data:image/png;base64,AAAA'', image_prompt = ''A locked room'',
       suggested_actions = [], action_taken = (if i = 0 then None else Some ''look''),
       time_of_day = ''noon'', is_same_location = 1, characters = [],
       acting_player_user_id = (if i = 0 then None else Some ''u0''),
       acting_player_index = (if i = 0 then None else Some 0), created_at = 0 \<rparr>"

definition party_session :: "string list \<Rightarrow> session_row" where
  "party_session met =
     \<lparr> session_id = ''s1'', theme = ''Fantasy'', is_multiplayer = 1, max_players = Some 4,
       current_player_index = Some 0, game_goal = Some ''Escape the room'',
       goal_prerequisites = Some [''find the key''], met_prerequisites = Some met,
       is_goal_met = 0, last_updated_at = 0 \<rparr>"

definition solo_session :: "string list \<Rightarrow> session_row" where
  "solo_session met =
     \<lparr> session_id = ''s1'', theme = ''Fantasy'', is_multiplayer = 0, max_players = None,
       current_player_index = None, game_goal = Some ''Escape the room'',
       goal_prerequisites = Some [''find the key''], met_prerequisites = Some met,
       is_goal_met = 0, last_updated_at = 0 \<rparr>"

definition party_db :: "string list \<Rightarrow> int list \<Rightarrow> database" where
  "party_db met ledger =
     \<lparr> sessions = [party_session met],
       session_players = [roster_entry ''u0'' 0, roster_entry ''u1'' 1, roster_entry ''u2'' 2,
                          roster_entry ''u3'' 3],
       turns = map ledger_turn ledger \<rparr>"

definition solo_db :: "string list \<Rightarrow> int list \<Rightarrow> database" where
  "solo_db met ledger =
     \<lparr> sessions = [solo_session met],
       session_players = [roster_entry ''u0'' 0],
       turns = map ledger_turn ledger \<rparr>"

definition world :: "string \<Rightarrow> (nat \<Rightarrow> llm_reply) \<Rightarrow> string option \<Rightarrow> string set \<Rightarrow> env" where
  "world imageProvider replies api connected =
     \<lparr> ACTIVE_LLM_PROVIDER = ''openai'', INITIAL_LLM_PROVIDER = ''openai'',
       ACTIVE_IMAGE_PROVIDER = imageProvider,
       IMAGEN_ASPECT_RATIO = ''16:9'', llm_replies = replies, image_api = api,
       sessionSockets = (if connected = {} then Map.empty else [''s1'' \<mapsto> connected]),
       now = 7, uuidv4 = ''t-new'' \<rparr>"

definition act :: "string \<Rightarrow> int \<Rightarrow> request" where
  "act uid i =
     \<lparr> body_sessionId = Some ''s1'', body_action = Some ''search the room'',
       body_turnIndex = Some i, requestUserId = uid \<rparr>"

text \<open>
  Replies that fail the checks of \<open>callLLM\<close>: an object with one key removed, and one
  with the value of a key replaced.
\<close>

fun without_key :: "string \<Rightarrow> json \<Rightarrow> json" where
  "without_key k (JObj kvs) = JObj (filter (\<lambda>kv. fst kv \<noteq> k) kvs)"
| "without_key k j = j"

fun with_key :: "string \<Rightarrow> json \<Rightarrow> json \<Rightarrow> json" where
  "with_key k v (JObj kvs) = JObj ((k, v) # filter (\<lambda>kv. fst kv \<noteq> k) kvs)"
| "with_key k v j = j"

definition flawed_replies :: "nat \<Rightarrow> llm_reply" where
  "flawed_replies attempt =
     (if attempt = 1 then Parsed (without_key ''narrative'' (turn_reply [] False))
      else if attempt = 2 then Parsed (with_key ''is_goal_met_this_turn'' (JStr ''no'') (turn_reply [] False))
      else InvalidJSON)"

definition recovering_replies :: "nat \<Rightarrow> llm_reply" where
  "recovering_replies attempt =
     (if attempt = 1 then Parsed (without_key ''updated_met_prerequisites'' (turn_reply [] False))
      else Parsed (turn_reply [] False))"

section \<open>Properties\<close>

subsection \<open>Reading the session row after an update\<close>

lemma get_session_turns_update [simp]:
  "get_session (db\<lparr>turns := ts\<rparr>) sid = get_session db sid"
  by (simp add: get_session_def)

lemma find_update_row:
  assumes "find (\<lambda>s. session_id s = sid) xs = Some s" and "session_id (f s) = sid"
  shows "find (\<lambda>s. session_id s = sid) (map (\<lambda>s. if session_id s = sid then f s else s) xs)
           = Some (f s)"
  using assms by (induction xs) (auto split: if_splits)

lemma get_session_update_session:
  assumes "get_session db sid = Some s" and "session_id (f s) = sid"
  shows "get_session (update_session db sid f) sid = Some (f s)"
  using assms by (simp add: get_session_def update_session_def find_update_row)

lemma get_session_id: "get_session db sid = Some s \<Longrightarrow> session_id s = sid"
  by (auto simp: get_session_def find_Some_iff)

lemma turns_update_session [simp]: "turns (update_session db sid f) = turns db"
  by (simp add: update_session_def)

lemma players_update_session [simp]:
  "session_players (update_session db sid f) = session_players db"
  by (simp add: update_session_def)

text \<open>On a dividend that is not negative \<open>%\<close> is \<open>mod\<close>.\<close>

lemma js_rem_mod: "0 \<le> a \<Longrightarrow> js_rem a (int n) = a mod int n"
  by (simp add: js_rem_def sgn_if)

subsection \<open>The paths through the handler\<close>

lemma submitAction_missing:
  assumes "body_sessionId req = None \<or> body_sessionId req = Some [] \<or> body_action req = None \<or>
           body_turnIndex req = None"
  shows "submitAction e db req = reply db MissingFields"
  using assms by (auto simp: submitAction_def split: option.splits)

lemma submitAction_checked:
  assumes "body_sessionId req = Some sid" and "sid \<noteq> []" and "body_action req = Some action"
      and "body_turnIndex req = Some src"
  shows "submitAction e db req =
     (if requestUserId req = [] then reply db MissingUserId
      else
        (case get_session db sid of
           None \<Rightarrow> reply db SessionNotFound
         | Some session \<Rightarrow>
             if get_players db sid = [] then reply db (Failed NoPlayersFound)
             else
               (case find (\<lambda>p. user_id p = requestUserId req) (get_players db sid) of
                  None \<Rightarrow> reply db NotAPlayer
                | Some requestingPlayer \<Rightarrow>
                    if is_multiplayer session \<noteq> 0 \<and>
                       current_player_index session \<noteq> Some (player_index requestingPlayer)
                    then reply db NotYourTurn
                    else action_or_skip e db sid session (get_players db sid) requestingPlayer
                           (requestUserId req) action src)))"
  using assms by (simp add: submitAction_def)

text \<open>
  Every call either is answered before step 3 with the database untouched, or reaches
  step 4 with a session, a roster entry of the requesting user and, in a multiplayer
  session, the current index equal to that entry's index.
\<close>

lemma submitAction_cases [case_names rejected handled]:
  obtains (rejected) r where "submitAction e db req = reply db r"
      and "r = MissingFields \<or> r = MissingUserId \<or> r = SessionNotFound \<or>
           r = Failed NoPlayersFound \<or> r = NotAPlayer \<or> r = NotYourTurn"
  | (handled) sid action src session rp where
      "body_sessionId req = Some sid" and "sid \<noteq> []" and "body_action req = Some action"
      and "body_turnIndex req = Some src" and "requestUserId req \<noteq> []"
      and "get_session db sid = Some session"
      and "find (\<lambda>p. user_id p = requestUserId req) (get_players db sid) = Some rp"
      and "is_multiplayer session \<noteq> 0 \<longrightarrow> current_player_index session = Some (player_index rp)"
      and "submitAction e db req =
             action_or_skip e db sid session (get_players db sid) rp (requestUserId req) action src"
proof (cases "body_sessionId req = None \<or> body_sessionId req = Some [] \<or> body_action req = None \<or>
              body_turnIndex req = None")
  case True
  then show thesis using rejected [of MissingFields] submitAction_missing by blast
next
  case False
  then obtain sid action src where wf: "body_sessionId req = Some sid" "sid \<noteq> []"
      "body_action req = Some action" "body_turnIndex req = Some src"
    by auto
  note unfold = submitAction_checked [OF wf, of e db]
  show thesis
  proof (cases "requestUserId req = []")
    case True
    with unfold show thesis using rejected [of MissingUserId] by simp
  next
    case user: False
    show thesis
    proof (cases "get_session db sid")
      case None
      with unfold user show thesis using rejected [of SessionNotFound] by simp
    next
      case (Some session)
      show thesis
      proof (cases "get_players db sid = []")
        case True
        with unfold user Some show thesis using rejected [of "Failed NoPlayersFound"] by simp
      next
        case roster: False
        show thesis
        proof (cases "find (\<lambda>p. user_id p = requestUserId req) (get_players db sid)")
          case None
          with unfold user Some roster show thesis using rejected [of NotAPlayer] by simp
        next
          case found: (Some rp)
          show thesis
          proof (cases "is_multiplayer session \<noteq> 0 \<and>
                        current_player_index session \<noteq> Some (player_index rp)")
            case True
            with unfold user Some roster found show thesis using rejected [of NotYourTurn] by simp
          next
            case False
            with unfold user Some roster found
            have "submitAction e db req =
                    action_or_skip e db sid session (get_players db sid) rp (requestUserId req)
                      action src"
              by simp
            with wf user Some found False show thesis using handled by blast
          qed
        qed
      qed
    qed
  qed
qed

lemma find_Some_nonempty: "find P xs = Some x \<Longrightarrow> xs \<noteq> []"
  by (cases xs) auto

text \<open>The call of a request that passes the body checks and finds its session and roster entry.\<close>

lemma submitAction_found:
  assumes "body_sessionId req = Some sid" and "sid \<noteq> []" and "body_action req = Some action"
      and "body_turnIndex req = Some src" and "requestUserId req \<noteq> []"
      and "get_session db sid = Some session"
      and "find (\<lambda>p. user_id p = requestUserId req) (get_players db sid) = Some rp"
  shows "submitAction e db req =
           (if is_multiplayer session \<noteq> 0 \<and> current_player_index session \<noteq> Some (player_index rp)
            then reply db NotYourTurn
            else action_or_skip e db sid session (get_players db sid) rp (requestUserId req)
                   action src)"
  using assms find_Some_nonempty [OF assms(7)]
  by (simp add: submitAction_checked [OF assms(1-4)])

subsection \<open>Turn ownership\<close>

text \<open>
  C9. A well-formed request for an existing session from a user of its roster: when the
  session is multiplayer and the user's roster index differs from
  \<open>current_player_index\<close>, the answer is 403 "It's not your turn.", the database is
  returned as it was, the language model is not called and nothing is published; when
  the session is not multiplayer the ownership check is not made and the request goes
  on to the processing of the action (step 4a).
\<close>

theorem turn_ownership_check:
  assumes "body_sessionId req = Some sid" and "sid \<noteq> []" and "body_action req = Some action"
      and "body_turnIndex req = Some src" and "requestUserId req \<noteq> []"
      and "get_session db sid = Some session"
      and "find (\<lambda>p. user_id p = requestUserId req) (get_players db sid) = Some rp"
  shows "(is_multiplayer session \<noteq> 0 \<and> current_player_index session \<noteq> Some (player_index rp) \<longrightarrow>
            submitAction e db req =
              \<lparr> db_after = db, response = NotYourTurn, llm_log = [], published = None \<rparr> \<and>
            status (response (submitAction e db req)) = 403) \<and>
         (is_multiplayer session = 0 \<longrightarrow>
            submitAction e db req =
              action_branch e db sid session (get_players db sid) rp (requestUserId req) action src)"
  by (simp add: submitAction_found [OF assms] reply_def action_or_skip_def isCurrentPlayerConnected_def
           split: option.splits)

theorem turn_ownership_check_witness:
  "submitAction (world ''google'' (\<lambda>_. Parsed (turn_reply [] False)) (Some ''QUJD'') {''u0'', ''u2''})
       (party_db [] [0]) (act ''u2'' 0)
     = \<lparr> db_after = party_db [] [0], response = NotYourTurn, llm_log = [], published = None \<rparr> \<and>
   status (response (submitAction (world ''google'' (\<lambda>_. Parsed (turn_reply [] False)) (Some ''QUJD'') {})
       (solo_db [] [0]) (act ''u0'' 0))) = 200"
proof -
  let ?e = "world ''google'' (\<lambda>_. Parsed (turn_reply [] False)) (Some ''QUJD'') {''u0'', ''u2''}"
  let ?e' = "world ''google'' (\<lambda>_. Parsed (turn_reply [] False)) (Some ''QUJD'') {}"
  have req: "body_sessionId (act u 0) = Some ''s1''" "''s1'' \<noteq> []"
    "body_action (act u 0) = Some ''search the room''" "body_turnIndex (act u 0) = Some 0" for u
    by (simp_all add: act_def)
  have party: "get_session (party_db [] [0]) ''s1'' = Some (party_session [])"
    by (simp add: get_session_def party_db_def party_session_def)
  have u2: "find (\<lambda>p. user_id p = requestUserId (act ''u2'' 0)) (get_players (party_db [] [0]) ''s1'')
              = Some (roster_entry ''u2'' 2)"
    by code_simp
  have solo: "get_session (solo_db [] [0]) ''s1'' = Some (solo_session [])"
    by (simp add: get_session_def solo_db_def solo_session_def)
  have u0: "find (\<lambda>p. user_id p = requestUserId (act ''u0'' 0)) (get_players (solo_db [] [0]) ''s1'')
              = Some (roster_entry ''u0'' 0)"
    by code_simp
  have run: "status (response (action_branch ?e' (solo_db [] [0]) ''s1'' (solo_session [])
               (get_players (solo_db [] [0]) ''s1'') (roster_entry ''u0'' 0)
               (requestUserId (act ''u0'' 0)) ''search the room'' 0)) = 200"
    by code_simp
  have "submitAction ?e (party_db [] [0]) (act ''u2'' 0)
          = \<lparr> db_after = party_db [] [0], response = NotYourTurn, llm_log = [], published = None \<rparr>"
    using turn_ownership_check [OF req _ party u2, of ?e]
    by (simp add: act_def party_session_def roster_entry_def)
  moreover have "submitAction ?e' (solo_db [] [0]) (act ''u0'' 0)
          = action_branch ?e' (solo_db [] [0]) ''s1'' (solo_session [])
               (get_players (solo_db [] [0]) ''s1'') (roster_entry ''u0'' 0)
               (requestUserId (act ''u0'' 0)) ''search the room'' 0"
    using turn_ownership_check [OF req _ solo u0, of ?e']
    by (simp add: act_def solo_session_def)
  ultimately show ?thesis using run by simp
qed

subsection \<open>A disconnected current player\<close>

text \<open>
  C5. The roster has four players, only \<open>u1\<close> and \<open>u3\<close> hold a socket, and
  \<open>current_player_index\<close> is 0. The request of \<open>u1\<close> is answered 403 "It's not your
  turn." by the ownership check of step 2, which comes before the check of the
  connection: the database is unchanged and \<open>current_player_index\<close> is still 0. The scan
  of step 4b would return index 1 on this roster, but it is not reached.
\<close>

theorem other_player_cannot_trigger_skip:
  "submitAction (world ''google'' (\<lambda>_. Parsed (turn_reply [] False)) (Some ''QUJD'') {''u1'', ''u3''})
       (party_db [] [0]) (act ''u1'' 0)
     = \<lparr> db_after = party_db [] [0], response = NotYourTurn, llm_log = [], published = None \<rparr> \<and>
   map_option current_player_index (get_session (party_db [] [0]) ''s1'') = Some (Some 0) \<and>
   skip_scan (get_players (party_db [] [0]) ''s1'')
       (is_connected (world ''google'' (\<lambda>_. Parsed (turn_reply [] False)) (Some ''QUJD'') {''u1'', ''u3''}) ''s1'')
       4 0 0 = 1"
  by code_simp

subsection \<open>The skip path\<close>

lemma getFullSessionState_update_session:
  assumes "get_session db sid = Some s" and "session_id (f s) = sid"
  shows "\<exists>st. getFullSessionState (update_session db sid f) sid = Some st \<and>
              fs_currentPlayerIndex st = current_player_index (f s) \<and>
              fs_metPrerequisites st = (case met_prerequisites (f s) of None \<Rightarrow> [] | Some ps \<Rightarrow> ps) \<and>
              fs_isGoalMet st = (is_goal_met (f s) \<noteq> 0)"
  using get_session_update_session [of db sid s f] assms by (simp add: getFullSessionState_def)

text \<open>A result of the scan other than \<open>-1\<close> is the index of a roster player who is connected.\<close>

lemma skip_scan_found:
  assumes "skip_scan players connected numPlayers checkedCount currentCheckIndex = j" and "j \<noteq> - 1"
  shows "\<exists>p. find (\<lambda>p. player_index p = j) players = Some p \<and> connected (user_id p)"
  using assms
proof (induction players connected numPlayers checkedCount currentCheckIndex rule: skip_scan.induct)
  case (1 players connected numPlayers checkedCount currentCheckIndex)
  from "1.prems" show ?case
    by (subst (asm) skip_scan.simps) (auto split: if_splits option.splits dest: "1.IH")
qed

lemma skip_turn_found:
  assumes "get_session db sid = Some session"
      and "skip_scan players (is_connected e sid) (length players) 0
             (js_number (current_player_index session)) = j"
      and "j \<noteq> - 1"
  shows "\<exists>st. skip_turn e db sid session players =
           \<lparr> db_after = update_session db sid
                           (\<lambda>s. s\<lparr>current_player_index := Some j, last_updated_at := now e\<rparr>),
             response = TurnSkipped st, llm_log = [], published = Some st \<rparr> \<and>
           fs_currentPlayerIndex st = Some j"
proof -
  let ?f = "\<lambda>s. s\<lparr>current_player_index := Some j, last_updated_at := now e\<rparr>"
  have "session_id (?f session) = sid"
    using get_session_id [OF assms(1)] by simp
  from getFullSessionState_update_session [of db sid session ?f] assms(1) this
  obtain st where "getFullSessionState (update_session db sid ?f) sid = Some st"
    and "fs_currentPlayerIndex st = Some j"
    by auto
  with assms(2,3) show ?thesis
    by (simp add: skip_turn_def Let_def)
qed

lemma skip_turn_paused:
  assumes "skip_scan players (is_connected e sid) (length players) 0
             (js_number (current_player_index session)) = - 1"
  shows "skip_turn e db sid session players = reply db NoActivePlayers"
  using assms by (simp add: skip_turn_def)

text \<open>
  The effects of the skip path in terms of the result \<open>j\<close> of the scan: if \<open>j\<close> is not
  \<open>-1\<close>, only \<open>current_player_index\<close> and \<open>last_updated_at\<close> of the session's row are
  assigned and the answer is the "turn skipped" one; if it is \<open>-1\<close>, nothing changes and
  the answer is 409, on every repetition.
\<close>

lemma skip_path_by_scan:
  assumes "body_sessionId req = Some sid" and "sid \<noteq> []" and "body_action req = Some action"
      and "body_turnIndex req = Some src" and "requestUserId req \<noteq> []"
      and "get_session db sid = Some session"
      and "find (\<lambda>p. user_id p = requestUserId req) (get_players db sid) = Some rp"
      and "is_multiplayer session \<noteq> 0"
      and "current_player_index session = Some (player_index rp)"
      and "\<not> isCurrentPlayerConnected e sid session (get_players db sid)"
      and "skip_scan (get_players db sid) (is_connected e sid) (length (get_players db sid)) 0
             (player_index rp) = j"
  shows "(j \<noteq> - 1 \<longrightarrow>
            db_after (submitAction e db req) =
              update_session db sid
                (\<lambda>s. s\<lparr>current_player_index := Some j, last_updated_at := now e\<rparr>) \<and>
            turns (db_after (submitAction e db req)) = turns db \<and>
            session_players (db_after (submitAction e db req)) = session_players db \<and>
            llm_log (submitAction e db req) = [] \<and>
            (\<exists>st. response (submitAction e db req) = TurnSkipped st \<and>
                  published (submitAction e db req) = Some st \<and>
                  fs_currentPlayerIndex st = Some j) \<and>
            (\<exists>p. find (\<lambda>p. player_index p = j) (get_players db sid) = Some p \<and>
                 is_connected e sid (user_id p))) \<and>
         (j = - 1 \<longrightarrow>
            submitAction e db req =
              \<lparr> db_after = db, response = NoActivePlayers, llm_log = [], published = None \<rparr> \<and>
            status (response (submitAction e db req)) = 409 \<and>
            (\<forall>n. ((\<lambda>d. db_after (submitAction e d req)) ^^ n) db = db \<and>
                 response (submitAction e (((\<lambda>d. db_after (submitAction e d req)) ^^ n) db) req)
                   = NoActivePlayers))"
proof -
  have skip: "submitAction e db req = skip_turn e db sid session (get_players db sid)"
    using assms(8-10) by (simp add: submitAction_found [OF assms(1-7)] action_or_skip_def)
  have scan: "skip_scan (get_players db sid) (is_connected e sid) (length (get_players db sid)) 0
                (js_number (current_player_index session)) = j"
    using assms(9,11) by (simp add: js_number_def)
  show ?thesis
  proof (cases "j = - 1")
    case True
    then have out: "submitAction e db req = reply db NoActivePlayers"
      using skip skip_turn_paused scan by simp
    have "((\<lambda>d. db_after (submitAction e d req)) ^^ n) db = db" for n
      by (induction n) (simp_all add: out reply_def)
    with True out show ?thesis by (simp add: reply_def)
  next
    case False
    from skip_turn_found [OF assms(6) scan False] skip_scan_found [OF assms(11) False] skip False
    show ?thesis
      by auto
  qed
qed

text \<open>
  The scan of the source against the scan of the specification. On a roster with
  distinct indices, started from a current index that is not negative, \<open>skip_scan\<close>
  returns the first slot of the specification's order that is the index of a connected
  player, and \<open>-1\<close> when there is none. Every index from 0 to \<open>numPlayers - 1\<close> is among
  the slots, so a connected player of a well-formed roster is always found.
\<close>

lemma find_distinct_index:
  assumes "distinct (map f xs)" and "find (\<lambda>p. f p = k) xs = Some p"
  shows "list_ex (\<lambda>q. f q = k \<and> Q q) xs \<longleftrightarrow> Q p"
  using assms
proof (induction xs)
  case Nil
  then show ?case by simp
next
  case (Cons x xs)
  show ?case
  proof (cases "f x = k")
    case True
    with Cons.prems have "p = x" and "\<forall>q\<in>set xs. f q \<noteq> k"
      by (auto simp: image_iff)
    with True show ?thesis by (auto simp: list_ex_iff)
  next
    case False
    with Cons show ?thesis by simp
  qed
qed

lemma find_None_index:
  assumes "find (\<lambda>p. f p = k) xs = None"
  shows "\<not> list_ex (\<lambda>q. f q = k \<and> Q q) xs"
  using assms by (auto simp: find_None_iff list_ex_iff)

lemma scan_tail:
  assumes "0 < n"
  shows "map (\<lambda>d. (cur + int d) mod int n) [1..<Suc (Suc m)] =
           (cur + 1) mod int n # map (\<lambda>d. ((cur + 1) mod int n + int d) mod int n) [1..<Suc m]"
proof -
  have "[1..<Suc (Suc m)] = 1 # [Suc 1..<Suc (Suc m)]"
    by (rule upt_conv_Cons) simp
  also have "[Suc 1..<Suc (Suc m)] = map Suc [1..<Suc m]"
    by (simp only: map_Suc_upt)
  finally have "[1..<Suc (Suc m)] = 1 # map Suc [1..<Suc m]" .
  moreover have "(cur + int (Suc d)) mod int n = ((cur + 1) mod int n + int d) mod int n" for d
  proof -
    have "cur + int (Suc d) = (cur + 1) + int d" by simp
    then show ?thesis by (simp only: mod_add_left_eq)
  qed
  ultimately show ?thesis by (simp add: comp_def del: upt_Suc)
qed

lemma skip_scan_refines:
  assumes "distinct (map player_index players)" and "0 \<le> cur" and "checkedCount \<le> numPlayers"
  shows "skip_scan players connected numPlayers checkedCount cur =
           (case find (\<lambda>k. list_ex (\<lambda>p. player_index p = k \<and> connected (user_id p)) players)
                   (map (\<lambda>d. (cur + int d) mod int numPlayers) [1..<Suc (numPlayers - checkedCount)]) of
              None \<Rightarrow> - 1
            | Some k \<Rightarrow> k)"
  using assms
proof (induction players connected numPlayers checkedCount cur rule: skip_scan.induct)
  case (1 players connected numPlayers checkedCount cur)
  let ?P = "\<lambda>k. list_ex (\<lambda>p. player_index p = k \<and> connected (user_id p)) players"
  let ?slots = "\<lambda>c n. map (\<lambda>d. (c + int d) mod int numPlayers) [1..<Suc n]"
  let ?pick = "\<lambda>r. case r of None \<Rightarrow> - 1 | Some (k::int) \<Rightarrow> k"
  show ?case
  proof (cases "checkedCount < numPlayers")
    case False
    with "1.prems" show ?thesis
      by (subst skip_scan.simps) simp
  next
    case more: True
    then obtain m where m: "numPlayers - checkedCount = Suc m" "numPlayers - (checkedCount + 1) = m"
      by (cases "numPlayers - checkedCount") auto
    from more have pos: "0 < numPlayers" by simp
    let ?k = "(cur + 1) mod int numPlayers"
    have k: "js_rem (cur + 1) (int numPlayers) = ?k"
      using "1.prems"(2) by (simp add: js_rem_mod)
    have k0: "0 \<le> ?k" using pos by simp
    have le: "checkedCount + 1 \<le> numPlayers" using more by simp
    have slots: "?slots cur (numPlayers - checkedCount) = ?k # ?slots ?k (numPlayers - (checkedCount + 1))"
      unfolding m by (rule scan_tail [OF pos])
    show ?thesis
    proof (cases "find (\<lambda>p. player_index p = ?k) players")
      case None
      have "skip_scan players connected numPlayers checkedCount cur =
              skip_scan players connected numPlayers (checkedCount + 1) ?k"
        by (subst skip_scan.simps) (simp add: more k None)
      also have "\<dots> = ?pick (find ?P (?slots ?k (numPlayers - (checkedCount + 1))))"
        by (rule "1.IH"(1) [OF more, unfolded k, OF None "1.prems"(1) k0 le])
      also have "\<dots> = ?pick (find ?P (?slots cur (numPlayers - checkedCount)))"
        using find_None_index [OF None, of "\<lambda>p. connected (user_id p)"]
        by (simp only: slots find.simps if_False)
      finally show ?thesis .
    next
      case (Some p)
      note iff = find_distinct_index [OF "1.prems"(1) Some, of "\<lambda>p. connected (user_id p)"]
      show ?thesis
      proof (cases "connected (user_id p)")
        case True
        have "skip_scan players connected numPlayers checkedCount cur = ?k"
          by (subst skip_scan.simps) (simp add: more k Some True)
        also have "\<dots> = ?pick (find ?P (?slots cur (numPlayers - checkedCount)))"
          using iff True by (simp only: slots find.simps if_True option.case)
        finally show ?thesis .
      next
        case False
        have "skip_scan players connected numPlayers checkedCount cur =
                skip_scan players connected numPlayers (checkedCount + 1) ?k"
          by (subst skip_scan.simps) (simp add: more k Some False)
        also have "\<dots> = ?pick (find ?P (?slots ?k (numPlayers - (checkedCount + 1))))"
          by (rule "1.IH"(2) [OF more, unfolded k, OF Some False "1.prems"(1) k0 le])
        also have "\<dots> = ?pick (find ?P (?slots cur (numPlayers - checkedCount)))"
          using iff False by (simp only: slots find.simps if_False)
        finally show ?thesis .
      qed
    qed
  qed
qed

lemma skip_scan_spec:
  assumes "distinct (map player_index players)" and "0 \<le> current"
  shows "skip_scan players connected (length players) 0 current =
           (case spec_first_connected players connected current of None \<Rightarrow> - 1 | Some k \<Rightarrow> k)"
  using skip_scan_refines [OF assms, of 0 "length players" connected]
  by (simp add: spec_first_connected_def spec_scan_order_def)

lemma find_Some_set: "find P xs = Some x \<Longrightarrow> x \<in> set xs \<and> P x"
  by (induction xs) (auto split: if_splits)

lemma scan_order_covers:
  assumes "0 \<le> k" and "k < int n"
  shows "k \<in> set (spec_scan_order c n)"
proof -
  from assms have n: "0 < n" by simp
  let ?d = "(k - c) mod int n"
  have d: "0 \<le> ?d" "?d < int n" using n by simp_all
  have wrap: "(c + ?d) mod int n = k"
  proof -
    have "(c + ?d) mod int n = (c + (k - c)) mod int n"
      by (simp only: mod_add_right_eq)
    with assms show ?thesis by simp
  qed
  show ?thesis
  proof (cases "?d = 0")
    case True
    have "n \<in> set [1..<Suc n]" using n by (simp only: set_upt atLeastLessThan_iff) simp
    moreover from True wrap have "k = (c + int n) mod int n" by simp
    ultimately show ?thesis
      unfolding spec_scan_order_def set_map by (rule rev_image_eqI)
  next
    case False
    with d have "1 \<le> nat ?d" and "nat ?d < Suc n" by linarith+
    then have "nat ?d \<in> set [1..<Suc n]" by (simp only: set_upt atLeastLessThan_iff)
    moreover have "k = (c + int (nat ?d)) mod int n" using d wrap by simp
    ultimately show ?thesis
      unfolding spec_scan_order_def set_map by (rule rev_image_eqI)
  qed
qed

lemma spec_first_connected_none:
  assumes "\<forall>p\<in>set roster. \<not> connected (user_id p)"
  shows "spec_first_connected roster connected current = None"
  using assms by (auto simp: spec_first_connected_def find_None_iff list_ex_iff)

lemma spec_first_connected_some:
  assumes "\<forall>p\<in>set roster. 0 \<le> player_index p \<and> player_index p < int (length roster)"
      and "p \<in> set roster" and "connected (user_id p)"
  shows "\<exists>j. spec_first_connected roster connected current = Some j \<and> 0 \<le> j"
proof -
  from assms have "player_index p \<in> set (spec_scan_order current (length roster))"
    by (intro scan_order_covers) auto
  moreover from assms(2,3)
  have "list_ex (\<lambda>q. player_index q = player_index p \<and> connected (user_id q)) roster"
    by (auto simp: list_ex_iff)
  ultimately have "spec_first_connected roster connected current \<noteq> None"
    by (auto simp: spec_first_connected_def find_None_iff)
  then obtain j where j: "spec_first_connected roster connected current = Some j"
    by auto
  then have "j \<in> set (spec_scan_order current (length roster))"
    by (auto simp: spec_first_connected_def dest: find_Some_set)
  moreover from assms(2) have "0 < length roster" by (cases roster) auto
  ultimately have "0 \<le> j"
    by (auto simp: spec_scan_order_def)
  with j show ?thesis by simp
qed

text \<open>
  C7. A well-formed request in a multiplayer session from the player whose index is
  \<open>current_player_index\<close>, when step 3 finds the current player not connected, on a
  roster whose indices are distinct and lie between 0 and the number of players. If some
  player of the roster is connected, a connected player is found within one wrap: the
  new index \<open>j\<close> is the first slot after the current index, in the order
  \<open>(current + 1) mod N\<close>, \<open>(current + 2) mod N\<close>, and so on, that belongs to a connected
  player. The database after the call is the one before with only
  \<open>current_player_index\<close> and \<open>last_updated_at\<close> of the session's row assigned: the turn
  ledger and the roster are the same, the language model is not called, and the answer
  is the "turn skipped" one carrying the state with the new index. If no player of the
  roster is connected, the call returns the database as it was with the 409 "No active
  players" answer, and so does every repetition of the call.
\<close>

theorem skip_path_effects:
  assumes "body_sessionId req = Some sid" and "sid \<noteq> []" and "body_action req = Some action"
      and "body_turnIndex req = Some src" and "requestUserId req \<noteq> []"
      and "get_session db sid = Some session"
      and "find (\<lambda>p. user_id p = requestUserId req) (get_players db sid) = Some rp"
      and "is_multiplayer session \<noteq> 0"
      and "current_player_index session = Some (player_index rp)"
      and "\<not> isCurrentPlayerConnected e sid session (get_players db sid)"
      and "distinct (map player_index (get_players db sid))"
      and "\<forall>p\<in>set (get_players db sid).
             0 \<le> player_index p \<and> player_index p < int (length (get_players db sid))"
  shows "((\<exists>p\<in>set (get_players db sid). is_connected e sid (user_id p)) \<longrightarrow>
            (\<exists>j p st.
               spec_first_connected (get_players db sid) (is_connected e sid) (player_index rp) = Some j \<and>
               find (\<lambda>p. player_index p = j) (get_players db sid) = Some p \<and>
               is_connected e sid (user_id p) \<and>
               db_after (submitAction e db req) =
                 update_session db sid
                   (\<lambda>s. s\<lparr>current_player_index := Some j, last_updated_at := now e\<rparr>) \<and>
               turns (db_after (submitAction e db req)) = turns db \<and>
               session_players (db_after (submitAction e db req)) = session_players db \<and>
               llm_log (submitAction e db req) = [] \<and>
               response (submitAction e db req) = TurnSkipped st \<and>
               published (submitAction e db req) = Some st \<and>
               fs_currentPlayerIndex st = Some j)) \<and>
         ((\<forall>p\<in>set (get_players db sid). \<not> is_connected e sid (user_id p)) \<longrightarrow>
            spec_first_connected (get_players db sid) (is_connected e sid) (player_index rp) = None \<and>
            submitAction e db req =
              \<lparr> db_after = db, response = NoActivePlayers, llm_log = [], published = None \<rparr> \<and>
            status (response (submitAction e db req)) = 409 \<and>
            (\<forall>n. ((\<lambda>d. db_after (submitAction e d req)) ^^ n) db = db \<and>
                 response (submitAction e (((\<lambda>d. db_after (submitAction e d req)) ^^ n) db) req)
                   = NoActivePlayers))"
proof -
  let ?roster = "get_players db sid"
  let ?spec = "spec_first_connected ?roster (is_connected e sid) (player_index rp)"
  let ?j = "skip_scan ?roster (is_connected e sid) (length ?roster) 0 (player_index rp)"
  from assms(7) have rp: "rp \<in> set ?roster" by (simp add: find_Some_set)
  with assms(12) have c0: "0 \<le> player_index rp" by simp
  have scan: "?j = (case ?spec of None \<Rightarrow> - 1 | Some k \<Rightarrow> k)"
    by (rule skip_scan_spec [OF assms(11) c0])
  note by_scan = skip_path_by_scan [OF assms(1-10) refl]
  show ?thesis
  proof (intro conjI impI)
    assume "\<exists>p\<in>set ?roster. is_connected e sid (user_id p)"
    then obtain q where q: "q \<in> set ?roster" "is_connected e sid (user_id q)" by blast
    from spec_first_connected_some
           [where roster = ?roster and connected = "is_connected e sid" and p = q
              and current = "player_index rp"] assms(12) q
    obtain j where j: "?spec = Some j" "0 \<le> j" by blast
    with scan have "?j = j" "?j \<noteq> - 1" by simp_all
    with by_scan j(1) show "\<exists>j p st.
               ?spec = Some j \<and>
               find (\<lambda>p. player_index p = j) ?roster = Some p \<and>
               is_connected e sid (user_id p) \<and>
               db_after (submitAction e db req) =
                 update_session db sid
                   (\<lambda>s. s\<lparr>current_player_index := Some j, last_updated_at := now e\<rparr>) \<and>
               turns (db_after (submitAction e db req)) = turns db \<and>
               session_players (db_after (submitAction e db req)) = session_players db \<and>
               llm_log (submitAction e db req) = [] \<and>
               response (submitAction e db req) = TurnSkipped st \<and>
               published (submitAction e db req) = Some st \<and>
               fs_currentPlayerIndex st = Some j"
      by auto
  next
    assume none: "\<forall>p\<in>set ?roster. \<not> is_connected e sid (user_id p)"
    then have spec: "?spec = None" by (rule spec_first_connected_none)
    with scan have "?j = - 1" by simp
    with by_scan spec show "?spec = None"
      and "submitAction e db req =
              \<lparr> db_after = db, response = NoActivePlayers, llm_log = [], published = None \<rparr>"
      and "status (response (submitAction e db req)) = 409"
      and "\<forall>n. ((\<lambda>d. db_after (submitAction e d req)) ^^ n) db = db \<and>
                 response (submitAction e (((\<lambda>d. db_after (submitAction e d req)) ^^ n) db) req)
                   = NoActivePlayers"
      by simp_all
  qed
qed

theorem skip_path_effects_witness:
  "(\<exists>st. response (submitAction (world ''google'' (\<lambda>_. CallError) None {''u1'', ''u3''})
                     (party_db [] [0]) (act ''u0'' 0)) = TurnSkipped st \<and>
         fs_currentPlayerIndex st = Some 1) \<and>
   (\<exists>st. response (submitAction (world ''google'' (\<lambda>_. CallError) None {''u3''})
                     (party_db [] [0]) (act ''u0'' 0)) = TurnSkipped st \<and>
         fs_currentPlayerIndex st = Some 3) \<and>
   turns (db_after (submitAction (world ''google'' (\<lambda>_. CallError) None {''u3''})
                     (party_db [] [0]) (act ''u0'' 0))) = turns (party_db [] [0]) \<and>
   submitAction (world ''google'' (\<lambda>_. CallError) None {}) (party_db [] [0]) (act ''u0'' 0) =
     \<lparr> db_after = party_db [] [0], response = NoActivePlayers, llm_log = [], published = None \<rparr>"
proof -
  let ?e = "world ''google'' (\<lambda>_. CallError) None {''u1'', ''u3''}"
  let ?e3 = "world ''google'' (\<lambda>_. CallError) None {''u3''}"
  let ?e' = "world ''google'' (\<lambda>_. CallError) None {}"
  let ?db = "party_db [] [0]"
  have req: "body_sessionId (act ''u0'' 0) = Some ''s1''" "''s1'' \<noteq> []"
    "body_action (act ''u0'' 0) = Some ''search the room''" "body_turnIndex (act ''u0'' 0) = Some 0"
    "requestUserId (act ''u0'' 0) \<noteq> []"
    by (simp_all add: act_def)
  have party: "get_session ?db ''s1'' = Some (party_session [])"
    by (simp add: get_session_def party_db_def party_session_def)
  have u0: "find (\<lambda>p. user_id p = requestUserId (act ''u0'' 0)) (get_players ?db ''s1'')
              = Some (roster_entry ''u0'' 0)"
    by code_simp
  have mp: "is_multiplayer (party_session []) \<noteq> 0"
    "current_player_index (party_session []) = Some (player_index (roster_entry ''u0'' 0))"
    by (simp_all add: party_session_def roster_entry_def)
  have away: "\<not> isCurrentPlayerConnected ?e ''s1'' (party_session []) (get_players ?db ''s1'')"
    "\<not> isCurrentPlayerConnected ?e3 ''s1'' (party_session []) (get_players ?db ''s1'')"
    "\<not> isCurrentPlayerConnected ?e' ''s1'' (party_session []) (get_players ?db ''s1'')"
    by code_simp+
  have roster: "distinct (map player_index (get_players ?db ''s1''))"
    "\<forall>p\<in>set (get_players ?db ''s1'').
       0 \<le> player_index p \<and> player_index p < int (length (get_players ?db ''s1''))"
    by code_simp+
  have some: "\<exists>p\<in>set (get_players ?db ''s1''). is_connected ?e ''s1'' (user_id p)"
    "\<exists>p\<in>set (get_players ?db ''s1''). is_connected ?e3 ''s1'' (user_id p)"
    by code_simp+
  have none: "\<forall>p\<in>set (get_players ?db ''s1''). \<not> is_connected ?e' ''s1'' (user_id p)"
    by code_simp
  have first: "spec_first_connected (get_players ?db ''s1'') (is_connected ?e ''s1'')
                 (player_index (roster_entry ''u0'' 0)) = Some 1"
    "spec_first_connected (get_players ?db ''s1'') (is_connected ?e3 ''s1'')
                 (player_index (roster_entry ''u0'' 0)) = Some 3"
    by code_simp+
  from skip_path_effects [OF req party u0 mp away(1) roster] some(1) first(1)
  have "\<exists>st. response (submitAction ?e ?db (act ''u0'' 0)) = TurnSkipped st \<and>
         fs_currentPlayerIndex st = Some 1"
    by auto
  moreover from skip_path_effects [OF req party u0 mp away(2) roster] some(2) first(2)
  have "(\<exists>st. response (submitAction ?e3 ?db (act ''u0'' 0)) = TurnSkipped st \<and>
         fs_currentPlayerIndex st = Some 3) \<and>
        turns (db_after (submitAction ?e3 ?db (act ''u0'' 0))) = turns ?db"
    by auto
  moreover from skip_path_effects [OF req party u0 mp away(3) roster] none
  have "submitAction ?e' ?db (act ''u0'' 0) =
     \<lparr> db_after = ?db, response = NoActivePlayers, llm_log = [], published = None \<rparr>"
    by blast
  ultimately show ?thesis by blast
qed

subsection \<open>A call that persists a new turn\<close>

text \<open>
  The answer \<open>StateUpdate\<close> is given only at the end of step 4a. Then the language
  model returned an object, an image reference was obtained, the turn index was within
  range, the insertion passed the constraints, and the database is the old one with the
  new turn appended and the session's row updated.
\<close>

lemma process_action_Inr:
  assumes "process_action e db sid session players rp uid action src = (Inr db1, log)"
  shows "\<exists>j url. callLLM e 3 False None None = (Inr j, log) \<and>
           generateImageWithAppropriateProvider e j = Inr url \<and>
           0 \<le> src \<and> src \<le> latest_turn_index db sid \<and>
           insert_turn db (turnParams e sid j url action uid rp (src + 1)) =
             Inr (db\<lparr>turns := turns db @ [turnParams e sid j url action uid rp (src + 1)]\<rparr>) \<and>
           db1 = update_session (db\<lparr>turns := turns db @ [turnParams e sid j url action uid rp (src + 1)]\<rparr>)
                   sid (session_update e session players j)"
  using assms
  by (auto simp: process_action_def Let_def insert_turn_def split: if_splits prod.splits sum.splits)

lemma skip_turn_not_update: "response (skip_turn e db sid session players) \<noteq> StateUpdate st"
  by (simp add: skip_turn_def Let_def reply_def split: option.splits)

lemma action_branch_StateUpdate:
  assumes "response (action_branch e db sid session players rp uid action src) = StateUpdate st"
  shows "\<exists>db1 log. process_action e db sid session players rp uid action src = (Inr db1, log) \<and>
           getFullSessionState db1 sid = Some st \<and>
           action_branch e db sid session players rp uid action src =
             \<lparr> db_after = db1, response = StateUpdate st, llm_log = log, published = Some st \<rparr>"
  using assms
  by (auto simp: action_branch_def split: prod.splits sum.splits option.splits)

lemma submitAction_StateUpdate:
  assumes "response (submitAction e db req) = StateUpdate st"
  obtains sid action src session rp j url where
      "body_sessionId req = Some sid" and "body_action req = Some action"
      and "body_turnIndex req = Some src"
      and "get_session db sid = Some session"
      and "find (\<lambda>p. user_id p = requestUserId req) (get_players db sid) = Some rp"
      and "is_multiplayer session \<noteq> 0 \<longrightarrow> current_player_index session = Some (player_index rp)"
      and "callLLM e 3 False None None
             = (Inr j, llm_log (submitAction e db req))"
      and "generateImageWithAppropriateProvider e j = Inr url"
      and "0 \<le> src" and "src \<le> latest_turn_index db sid"
      and "insert_turn db (turnParams e sid j url action (requestUserId req) rp (src + 1)) =
             Inr (db\<lparr>turns := turns db @ [turnParams e sid j url action (requestUserId req) rp (src + 1)]\<rparr>)"
      and "db_after (submitAction e db req) =
             update_session
               (db\<lparr>turns := turns db @ [turnParams e sid j url action (requestUserId req) rp (src + 1)]\<rparr>)
               sid (session_update e session (get_players db sid) j)"
      and "getFullSessionState (db_after (submitAction e db req)) sid = Some st"
proof (cases rule: submitAction_cases [of e db req])
  case (rejected r)
  with assms show thesis by (auto simp: reply_def)
next
  case (handled sid action src session rp)
  let ?players = "get_players db sid"
  from handled(9) assms
  have branch: "submitAction e db req =
                  action_branch e db sid session ?players rp (requestUserId req) action src"
    by (auto simp: action_or_skip_def skip_turn_not_update split: if_splits)
  with assms action_branch_StateUpdate
  obtain db1 log where run: "process_action e db sid session ?players rp (requestUserId req) action src
                               = (Inr db1, log)"
    and st: "getFullSessionState db1 sid = Some st"
    and out: "submitAction e db req =
                \<lparr> db_after = db1, response = StateUpdate st, llm_log = log, published = Some st \<rparr>"
    by metis
  from out have log: "llm_log (submitAction e db req) = log"
    and dba: "db_after (submitAction e db req) = db1"
    by simp_all
  from process_action_Inr [OF run] obtain j url where
    j: "callLLM e 3 False None None = (Inr j, log)"
    and url: "generateImageWithAppropriateProvider e j = Inr url"
    and src: "0 \<le> src" "src \<le> latest_turn_index db sid"
    and ins: "insert_turn db (turnParams e sid j url action (requestUserId req) rp (src + 1)) =
       Inr (db\<lparr>turns := turns db @ [turnParams e sid j url action (requestUserId req) rp (src + 1)]\<rparr>)"
    and db1: "db1 = update_session
             (db\<lparr>turns := turns db @ [turnParams e sid j url action (requestUserId req) rp (src + 1)]\<rparr>)
             sid (session_update e session ?players j)"
    by blast
  show thesis
  proof (rule that [of sid action src session rp j url])
    show "callLLM e 3 False None None
            = (Inr j, llm_log (submitAction e db req))"
      using j log by simp
    show "db_after (submitAction e db req) =
            update_session
              (db\<lparr>turns := turns db @ [turnParams e sid j url action (requestUserId req) rp (src + 1)]\<rparr>)
              sid (session_update e session (get_players db sid) j)"
      using dba db1 by simp
    show "getFullSessionState (db_after (submitAction e db req)) sid = Some st"
      using dba st by simp
  qed (fact handled(1,3,4,6,7,8) url src ins)+
qed

lemma committed_session_row:
  assumes "response (submitAction e db req) = StateUpdate st"
      and "body_sessionId req = Some sid"
  obtains session j where "get_session db sid = Some session"
      and "callLLM e 3 False None None
             = (Inr j, llm_log (submitAction e db req))"
      and "get_session (db_after (submitAction e db req)) sid
             = Some (session_update e session (get_players db sid) j session)"
      and "getFullSessionState (db_after (submitAction e db req)) sid = Some st"
proof -
  from assms(1) obtain sid' action src session rp j url where
    sid': "body_sessionId req = Some sid'"
    and session: "get_session db sid' = Some session"
    and j: "callLLM e 3 False None None
              = (Inr j, llm_log (submitAction e db req))"
    and dba: "db_after (submitAction e db req) =
             update_session
               (db\<lparr>turns := turns db @ [turnParams e sid' j url action (requestUserId req) rp (src + 1)]\<rparr>)
               sid' (session_update e session (get_players db sid') j)"
    and st: "getFullSessionState (db_after (submitAction e db req)) sid' = Some st"
    by (rule submitAction_StateUpdate)
  from sid' assms(2) have [simp]: "sid' = sid" by simp
  have "session_id (session_update e session (get_players db sid) j session) = sid"
    using get_session_id session by (simp add: session_update_def)
  then have "get_session (db_after (submitAction e db req)) sid
               = Some (session_update e session (get_players db sid) j session)"
    using session dba get_session_update_session
    by simp
  with session j st show thesis using that by simp
qed

lemma getFullSessionState_fields:
  assumes "get_session db sid = Some s" and "getFullSessionState db sid = Some st"
  shows "fs_currentPlayerIndex st = current_player_index s"
    and "fs_metPrerequisites st = (case met_prerequisites s of None \<Rightarrow> [] | Some ps \<Rightarrow> ps)"
    and "fs_isGoalMet st = (is_goal_met s \<noteq> 0)"
    and "fs_history st = get_turns db sid"
  using assms by (auto simp: getFullSessionState_def)

subsection \<open>Round-robin advance\<close>

text \<open>
  C6. After a call that is answered with a new turn, the session's row holds: in a
  multiplayer session whose \<open>current_player_index\<close> was \<open>i\<close> (a roster index, so not
  negative), the index \<open>(i + 1) mod N\<close> where \<open>N\<close> is the number of roster players,
  whatever the sockets are; in a session that is not multiplayer, the same
  \<open>current_player_index\<close> as before (\<open>NULL\<close> stays \<open>NULL\<close>). The returned state carries
  that index.
\<close>

theorem round_robin_advance:
  assumes "response (submitAction e db req) = StateUpdate st"
      and "body_sessionId req = Some sid"
      and "get_session db sid = Some session"
  shows "\<exists>session'. get_session (db_after (submitAction e db req)) sid = Some session' \<and>
           fs_currentPlayerIndex st = current_player_index session' \<and>
           (is_multiplayer session \<noteq> 0 \<longrightarrow>
              (\<forall>i. current_player_index session = Some i \<and> 0 \<le> i \<longrightarrow>
                   current_player_index session' =
                     Some ((i + 1) mod int (length (get_players db sid))))) \<and>
           (is_multiplayer session = 0 \<longrightarrow>
              current_player_index session' = current_player_index session)"
proof -
  from assms(1,2) obtain session0 j where
    "get_session db sid = Some session0"
    and row: "get_session (db_after (submitAction e db req)) sid
             = Some (session_update e session0 (get_players db sid) j session0)"
    and st: "getFullSessionState (db_after (submitAction e db req)) sid = Some st"
    by (rule committed_session_row)
  with assms(3) have [simp]: "session0 = session" by simp
  let ?s' = "session_update e session (get_players db sid) j session"
  have "fs_currentPlayerIndex st = current_player_index ?s'"
    using getFullSessionState_fields(1) [OF row st] by simp
  moreover have "current_player_index ?s' = nextPlayerIndex session (get_players db sid)"
    by (simp add: session_update_def)
  ultimately show ?thesis
    using row by (auto simp: nextPlayerIndex_def js_number_def js_rem_mod)
qed

theorem round_robin_advance_witness:
  "map_option current_player_index
     (get_session
        (db_after (submitAction (world ''google'' (\<lambda>_. Parsed (turn_reply [] False)) (Some ''QUJD'') {''u0''})
                     (party_db [] [0]) (act ''u0'' 0))) ''s1'') = Some (Some 1) \<and>
   map_option current_player_index
     (get_session
        (db_after (submitAction (world ''google'' (\<lambda>_. Parsed (turn_reply [] False)) (Some ''QUJD'') {})
                     (solo_db [] [0]) (act ''u0'' 0))) ''s1'') = Some None"
proof -
  let ?e = "world ''google'' (\<lambda>_. Parsed (turn_reply [] False)) (Some ''QUJD'') {''u0''}"
  let ?e' = "world ''google'' (\<lambda>_. Parsed (turn_reply [] False)) (Some ''QUJD'') {}"
  let ?out = "submitAction ?e (party_db [] [0]) (act ''u0'' 0)"
  let ?out' = "submitAction ?e' (solo_db [] [0]) (act ''u0'' 0)"
  have ok: "response ?out = StateUpdate (the (published ?out))"
    and ok': "response ?out' = StateUpdate (the (published ?out'))"
    by code_simp+
  have req: "body_sessionId (act ''u0'' 0) = Some ''s1''"
    by (simp add: act_def)
  have party: "get_session (party_db [] [0]) ''s1'' = Some (party_session [])"
    by (simp add: get_session_def party_db_def party_session_def)
  have solo: "get_session (solo_db [] [0]) ''s1'' = Some (solo_session [])"
    by (simp add: get_session_def solo_db_def solo_session_def)
  have four: "length (get_players (party_db [] [0]) ''s1'') = 4"
    by code_simp
  from round_robin_advance [OF ok req party] round_robin_advance [OF ok' req solo] four
  show ?thesis
    by (auto simp: party_session_def solo_session_def)
qed

subsection \<open>The met prerequisites\<close>

text \<open>
  C1, as the code has it. After a call that is answered with a new turn, the persisted
  \<open>met_prerequisites\<close> is the list \<open>updated_met_prerequisites\<close> of the object the language
  model returned: the list replaces the previous one and is not merged with it. Hence a
  previously met list stays included in the new one exactly when the model's list
  includes it.
\<close>

theorem met_prerequisites_replaced:
  assumes "response (submitAction e db req) = StateUpdate st"
      and "body_sessionId req = Some sid"
      and "get_session db sid = Some session"
      and "callLLM e 3 False None None = (Inr nextTurnData, log)"
  shows "\<exists>session'. get_session (db_after (submitAction e db req)) sid = Some session' \<and>
           met_prerequisites session' =
             Some (strings_of (get_prop nextTurnData ''updated_met_prerequisites'')) \<and>
           fs_metPrerequisites st = strings_of (get_prop nextTurnData ''updated_met_prerequisites'') \<and>
           (\<forall>old. met_prerequisites session = Some old \<and>
                  set old \<subseteq> set (strings_of (get_prop nextTurnData ''updated_met_prerequisites'')) \<longrightarrow>
                  set old \<subseteq> set (fs_metPrerequisites st))"
proof -
  from assms(1,2) obtain session0 j where
    "callLLM e 3 False None None
       = (Inr j, llm_log (submitAction e db req))"
    and row: "get_session (db_after (submitAction e db req)) sid
             = Some (session_update e session0 (get_players db sid) j session0)"
    and st: "getFullSessionState (db_after (submitAction e db req)) sid = Some st"
    by (rule committed_session_row)
  with assms(4) have [simp]: "j = nextTurnData" by simp
  let ?s' = "session_update e session0 (get_players db sid) nextTurnData session0"
  have "met_prerequisites ?s' = Some (strings_of (get_prop nextTurnData ''updated_met_prerequisites''))"
    by (simp add: session_update_def)
  moreover from this have "fs_metPrerequisites st = strings_of (get_prop nextTurnData ''updated_met_prerequisites'')"
    using getFullSessionState_fields(2) [OF row st] by simp
  ultimately show ?thesis using row by simp
qed

theorem met_prerequisites_replaced_witness:
  "map_option met_prerequisites
     (get_session
        (db_after (submitAction (world ''google'' (\<lambda>_. Parsed (turn_reply [''find the key''] False)) (Some ''QUJD'') {})
                     (solo_db [] [0]) (act ''u0'' 0))) ''s1'') = Some (Some [''find the key''])"
proof -
  let ?e = "world ''google'' (\<lambda>_. Parsed (turn_reply [''find the key''] False)) (Some ''QUJD'') {}"
  let ?out = "submitAction ?e (solo_db [] [0]) (act ''u0'' 0)"
  have ok: "response ?out = StateUpdate (the (published ?out))"
    by code_simp
  have req: "body_sessionId (act ''u0'' 0) = Some ''s1''"
    by (simp add: act_def)
  have solo: "get_session (solo_db [] [0]) ''s1'' = Some (solo_session [])"
    by (simp add: get_session_def solo_db_def solo_session_def)
  have gen: "callLLM ?e 3 False None None
               = (Inr (turn_reply [''find the key''] False), [Attempt 1])"
    by code_simp
  have "strings_of (get_prop (turn_reply [''find the key''] False) ''updated_met_prerequisites'')
          = [''find the key'']"
    by code_simp
  with met_prerequisites_replaced [OF ok req solo gen] show ?thesis
    by auto
qed

text \<open>
  C1 as stated fails. The session has met \<open>find the key\<close>; the model answers with an
  empty \<open>updated_met_prerequisites\<close>; the call persists turn 1 and the met list becomes
  empty: it is not the union of the previous list and the reported one, and a met
  prerequisite has been removed.
\<close>

theorem met_union_counterexample:
  "map_option met_prerequisites (get_session (solo_db [''find the key''] [0]) ''s1'')
     = Some (Some [''find the key'']) \<and>
   callLLM (world ''google'' (\<lambda>_. Parsed (turn_reply [] False)) (Some ''QUJD'') {}) 3 False None None
     = (Inr (turn_reply [] False), [Attempt 1]) \<and>
   strings_of (get_prop (turn_reply [] False) ''updated_met_prerequisites'') = [] \<and>
   status (response (submitAction (world ''google'' (\<lambda>_. Parsed (turn_reply [] False)) (Some ''QUJD'') {})
                       (solo_db [''find the key''] [0]) (act ''u0'' 0))) = 200 \<and>
   map turn_index
     (turns (db_after (submitAction (world ''google'' (\<lambda>_. Parsed (turn_reply [] False)) (Some ''QUJD'') {})
                         (solo_db [''find the key''] [0]) (act ''u0'' 0)))) = [0, 1] \<and>
   map_option met_prerequisites
     (get_session
        (db_after (submitAction (world ''google'' (\<lambda>_. Parsed (turn_reply [] False)) (Some ''QUJD'') {})
                     (solo_db [''find the key''] [0]) (act ''u0'' 0))) ''s1'') = Some (Some []) \<and>
   set ([] :: string list) \<noteq> set [''find the key''] \<union> set []"
  by code_simp

subsection \<open>The goal flag\<close>




subsection \<open>Retries of the language model\<close>

text \<open>
  The loop of \<open>callLLM\<close> with \<open>maxRetries = 3\<close>, unfolded, and what the handler does
  with its log and its error.
\<close>

lemma retry_loop_step:
  assumes "attempt \<le> maxRetries" and "next = attempt + 1"
  shows "retry_loop p replies b maxRetries attempt =
     (case attempt_body p b (replies attempt) of
        Some j \<Rightarrow> (Some j, [Attempt attempt])
      | None \<Rightarrow>
          (fst (retry_loop p replies b maxRetries next),
           Attempt attempt # (if attempt < maxRetries then [Wait (500 * attempt)] else []) @
             snd (retry_loop p replies b maxRetries next)))"
  using assms by (subst retry_loop.simps) (simp add: Let_def split: option.splits)

lemma retry_loop_stop:
  assumes "maxRetries < attempt"
  shows "retry_loop p replies b maxRetries attempt = (None, [])"
  using assms by (subst retry_loop.simps) simp

lemma retry_loop_3:
  "retry_loop p replies b 3 1 =
     (case attempt_body p b (replies 1) of
        Some j \<Rightarrow> (Some j, [Attempt 1])
      | None \<Rightarrow>
          (case attempt_body p b (replies 2) of
             Some j \<Rightarrow> (Some j, [Attempt 1, Wait 500, Attempt 2])
           | None \<Rightarrow>
               (case attempt_body p b (replies 3) of
                  Some j \<Rightarrow> (Some j, [Attempt 1, Wait 500, Attempt 2, Wait 1000, Attempt 3])
                | None \<Rightarrow> (None, [Attempt 1, Wait 500, Attempt 2, Wait 1000, Attempt 3]))))"
proof -
  have s4: "retry_loop p replies b 3 4 = (None, [])"
    by (rule retry_loop_stop) simp
  have s3: "retry_loop p replies b 3 3 =
     (case attempt_body p b (replies 3) of
        Some j \<Rightarrow> (Some j, [Attempt 3])
      | None \<Rightarrow>
          (fst (retry_loop p replies b 3 4),
           Attempt 3 # (if (3::nat) < 3 then [Wait (500 * 3)] else []) @
             snd (retry_loop p replies b 3 4)))"
    by (rule retry_loop_step) simp_all
  have s2: "retry_loop p replies b 3 2 =
     (case attempt_body p b (replies 2) of
        Some j \<Rightarrow> (Some j, [Attempt 2])
      | None \<Rightarrow>
          (fst (retry_loop p replies b 3 3),
           Attempt 2 # (if (2::nat) < 3 then [Wait (500 * 2)] else []) @
             snd (retry_loop p replies b 3 3)))"
    by (rule retry_loop_step) simp_all
  have s1: "retry_loop p replies b 3 1 =
     (case attempt_body p b (replies 1) of
        Some j \<Rightarrow> (Some j, [Attempt 1])
      | None \<Rightarrow>
          (fst (retry_loop p replies b 3 2),
           Attempt 1 # (if (1::nat) < 3 then [Wait (500 * 1)] else []) @
             snd (retry_loop p replies b 3 2)))"
    by (rule retry_loop_step) simp_all
  show ?thesis
    unfolding s1 s2 s3 s4 by (simp split: option.splits)
qed

lemma process_action_log:
  "snd (process_action e db sid session players rp uid action src) = [] \<or>
   (snd (process_action e db sid session players rp uid action src)
      = snd (callLLM e 3 False None None) \<and>
    (\<forall>err. fst (callLLM e 3 False None None) = Inl err \<longrightarrow>
           fst (process_action e db sid session players rp uid action src) = Inl err))"
  by (auto simp: process_action_def Let_def split: prod.splits sum.splits)

lemma action_branch_failed:
  assumes "process_action e db sid session players rp uid action src = (Inl err, log)"
  shows "action_branch e db sid session players rp uid action src =
           \<lparr> db_after = db, response = Failed err, llm_log = log, published = None \<rparr>"
  using assms by (simp add: action_branch_def)

lemma action_branch_log: 
  "llm_log (action_branch e db sid session players rp uid action src)
     = snd (process_action e db sid session players rp uid action src)"
  by (simp add: action_branch_def split: prod.splits sum.splits option.splits)

lemma skip_turn_log [simp]: "llm_log (skip_turn e db sid session players) = []"
  by (simp add: skip_turn_def Let_def reply_def split: option.splits)

lemma submitAction_log:
  "llm_log (submitAction e db req) = [] \<or>
   (llm_log (submitAction e db req) = snd (callLLM e 3 False None None) \<and>
    (\<forall>err. fst (callLLM e 3 False None None) = Inl err \<longrightarrow>
       submitAction e db req =
         \<lparr> db_after = db, response = Failed err,
           llm_log = snd (callLLM e 3 False None None),
           published = None \<rparr>))"
proof (cases rule: submitAction_cases [of e db req])
  case (rejected r)
  then show ?thesis by (simp add: reply_def)
next
  case (handled sid action src session rp)
  let ?players = "get_players db sid"
  let ?run = "process_action e db sid session ?players rp (requestUserId req) action src"
  show ?thesis
  proof (cases "isCurrentPlayerConnected e sid session ?players")
    case False
    with handled(9) show ?thesis by (simp add: action_or_skip_def)
  next
    case True
    with handled(9) have out: "submitAction e db req =
        action_branch e db sid session ?players rp (requestUserId req) action src"
      by (simp add: action_or_skip_def)
    from process_action_log [of e db sid session ?players rp "requestUserId req" action src]
    show ?thesis
    proof
      assume "snd ?run = []"
      then show ?thesis by (simp add: out action_branch_log)
    next
      assume run: "snd ?run = snd (callLLM e 3 False None None) \<and>
        (\<forall>err. fst (callLLM e 3 False None None) = Inl err \<longrightarrow>
               fst ?run = Inl err)"
      have "submitAction e db req =
              \<lparr> db_after = db, response = Failed err,
                llm_log = snd (callLLM e 3 False None None),
                published = None \<rparr>"
        if "fst (callLLM e 3 False None None) = Inl err" for err
      proof -
        from run that have "?run = (Inl err, snd (callLLM e 3 False None None))"
          by (metis prod.collapse)
        from action_branch_failed [OF this] out show ?thesis by simp
      qed
      with run show ?thesis by (simp add: out action_branch_log)
    qed
  qed
qed

lemma attempt_result_None_iff:
  "attempt_result b r = None \<longleftrightarrow>
     r = CallError \<or> r = EmptyContent \<or> r = InvalidJSON \<or>
     (\<exists>j. r = Parsed j \<and> (\<not> common_keys_ok j \<or> \<not> goal_keys_ok b j))"
  by (cases r) auto

lemma callLLM_3:
  "callLLM e 3 False None None =
     (if \<not> valid_llm_provider (ACTIVE_LLM_PROVIDER e) then (Inl InvalidLLMProvider, [])
      else
        (case attempt_result False (llm_replies e 1) of
           Some j \<Rightarrow> (Inr j, [Attempt 1])
         | None \<Rightarrow>
             (case attempt_result False (llm_replies e 2) of
                Some j \<Rightarrow> (Inr j, [Attempt 1, Wait 500, Attempt 2])
              | None \<Rightarrow>
                  (case attempt_result False (llm_replies e 3) of
                     Some j \<Rightarrow> (Inr j, [Attempt 1, Wait 500, Attempt 2, Wait 1000, Attempt 3])
                   | None \<Rightarrow>
                       (Inl (LLMFailed 3),
                        [Attempt 1, Wait 500, Attempt 2, Wait 1000, Attempt 3])))))"
  unfolding callLLM_def retry_loop_3 Let_def by (simp add: attempt_body_def split: option.splits)

text \<open>
  The checks of an attempt spelled out on the reply: the object \<open>callLLM\<close> returns has
  every required key with a value of the required type, and a reply without one of
  them makes the attempt fail.
\<close>

lemma is_string_iff: "is_string v \<longleftrightarrow> (\<exists>s. v = Some (JStr s))"
  by (cases v rule: is_string.cases) simp_all

lemma is_boolean_iff: "is_boolean v \<longleftrightarrow> (\<exists>b. v = Some (JBool b))"
  by (cases v rule: is_boolean.cases) simp_all

lemma is_array_iff: "is_array v \<longleftrightarrow> (\<exists>xs. v = Some (JArr xs))"
  by (cases v rule: is_array.cases) simp_all

lemma all_strings_iff: "list_all (\<lambda>x. is_string (Some x)) xs \<longleftrightarrow> (\<exists>ys. xs = map JStr ys)"
proof (induction xs)
  case Nil
  then show ?case by simp
next
  case (Cons x xs)
  show ?case
  proof
    assume "list_all (\<lambda>x. is_string (Some x)) (x # xs)"
    with Cons obtain s ys where "x = JStr s" "xs = map JStr ys"
      by (auto simp: is_string_iff)
    then have "x # xs = map JStr (s # ys)" by simp
    then show "\<exists>ys. x # xs = map JStr ys" by (rule exI)
  next
    assume "\<exists>ys. x # xs = map JStr ys"
    then show "list_all (\<lambda>x. is_string (Some x)) (x # xs)"
      by (auto simp: list_all_iff)
  qed
qed

lemma is_string_array_iff: "is_string_array v \<longleftrightarrow> (\<exists>ys. v = Some (JArr (map JStr ys)))"
  by (auto simp: is_string_array_def is_array_iff all_strings_iff)

lemma valid_character_iff:
  "valid_character c \<longleftrightarrow>
     (\<exists>name description appearance opinion.
        get_prop c ''name'' = Some (JStr name) \<and>
        get_prop c ''description'' = Some (JStr description) \<and>
        get_prop c ''appearance'' = Some (JStr appearance) \<and>
        get_prop c ''opinionOfPlayer'' = Some (JStr opinion))"
  by (simp add: valid_character_def is_string_iff)

lemma accepted_reply_iff:
  "attempt_result False r = Some j \<longleftrightarrow>
     r = Parsed j \<and>
     (\<exists>nar img acts tod same chars met goal.
        get_prop j ''narrative'' = Some (JStr nar) \<and>
        get_prop j ''image_prompt'' = Some (JStr img) \<and>
        get_prop j ''suggested_actions'' = Some (JArr (map JStr acts)) \<and>
        get_prop j ''timeOfDay'' = Some (JStr tod) \<and>
        get_prop j ''isSameLocation'' = Some (JBool same) \<and>
        get_prop j ''characters'' = Some (JArr chars) \<and>
        (\<forall>c\<in>set chars.
           \<exists>name description appearance opinion.
             get_prop c ''name'' = Some (JStr name) \<and>
             get_prop c ''description'' = Some (JStr description) \<and>
             get_prop c ''appearance'' = Some (JStr appearance) \<and>
             get_prop c ''opinionOfPlayer'' = Some (JStr opinion)) \<and>
        get_prop j ''updated_met_prerequisites'' = Some (JArr (map JStr met)) \<and>
        get_prop j ''is_goal_met_this_turn'' = Some (JBool goal))"
proof (cases r)
  case (Parsed j')
  have common: "common_keys_ok j' \<longleftrightarrow>
     (\<exists>nar img acts tod same chars.
        get_prop j' ''narrative'' = Some (JStr nar) \<and>
        get_prop j' ''image_prompt'' = Some (JStr img) \<and>
        get_prop j' ''suggested_actions'' = Some (JArr (map JStr acts)) \<and>
        get_prop j' ''timeOfDay'' = Some (JStr tod) \<and>
        get_prop j' ''isSameLocation'' = Some (JBool same) \<and>
        get_prop j' ''characters'' = Some (JArr chars) \<and>
        (\<forall>c\<in>set chars. valid_character c))"
    unfolding common_keys_ok_def all_strings_iff
    by (auto simp: is_string_iff is_boolean_iff is_array_iff list_all_iff)
  have goal: "goal_keys_ok False j' \<longleftrightarrow>
     (\<exists>met goal.
        get_prop j' ''updated_met_prerequisites'' = Some (JArr (map JStr met)) \<and>
        get_prop j' ''is_goal_met_this_turn'' = Some (JBool goal))"
    by (auto simp: goal_keys_ok_def is_string_array_iff is_boolean_iff)
  show ?thesis
    unfolding Parsed attempt_result.simps common goal valid_character_iff
    by auto
qed simp_all

lemma rejected_reply_iff:
  "attempt_result False r = None \<longleftrightarrow>
     r = CallError \<or> r = EmptyContent \<or> r = InvalidJSON \<or>
     (\<exists>j. r = Parsed j \<and>
        \<not> (\<exists>nar img acts tod same chars met goal.
           get_prop j ''narrative'' = Some (JStr nar) \<and>
           get_prop j ''image_prompt'' = Some (JStr img) \<and>
           get_prop j ''suggested_actions'' = Some (JArr (map JStr acts)) \<and>
           get_prop j ''timeOfDay'' = Some (JStr tod) \<and>
           get_prop j ''isSameLocation'' = Some (JBool same) \<and>
           get_prop j ''characters'' = Some (JArr chars) \<and>
           (\<forall>c\<in>set chars.
              \<exists>name description appearance opinion.
                get_prop c ''name'' = Some (JStr name) \<and>
                get_prop c ''description'' = Some (JStr description) \<and>
                get_prop c ''appearance'' = Some (JStr appearance) \<and>
                get_prop c ''opinionOfPlayer'' = Some (JStr opinion)) \<and>
           get_prop j ''updated_met_prerequisites'' = Some (JArr (map JStr met)) \<and>
           get_prop j ''is_goal_met_this_turn'' = Some (JBool goal)))"
proof (cases r)
  case (Parsed j)
  have "attempt_result False (Parsed j) = None \<longleftrightarrow> attempt_result False (Parsed j) \<noteq> Some j"
    by simp
  then show ?thesis
    unfolding Parsed accepted_reply_iff [of "Parsed j" j] by simp
qed simp_all

lemma missing_key_rejected:
  assumes "k \<in> set [''narrative'', ''image_prompt'', ''suggested_actions'', ''timeOfDay'',
                     ''isSameLocation'', ''characters'', ''updated_met_prerequisites'',
                     ''is_goal_met_this_turn'']"
      and "get_prop j k = None"
  shows "attempt_result False (Parsed j) = None"
  using assms unfolding rejected_reply_iff by auto

text \<open>
  C8. During one call of the handler the language model is attempted at most three
  times, and the log of \<open>callLLM\<close> is empty (the model was not called) or one of: attempt
  1; attempt 1, 500 ms, attempt 2; attempt 1, 500 ms, attempt 2, 1000 ms, attempt 3.
  Attempt \<open>k + 1\<close> is made only after attempt \<open>k\<close> failed, and a failed attempt before
  the third is followed by the next one. An attempt fails exactly when the provider
  call throws, the content is empty, the content is not JSON, or the parsed value is not
  an object holding strings under \<open>narrative\<close>, \<open>image_prompt\<close> and \<open>timeOfDay\<close>, an array
  of strings under \<open>suggested_actions\<close> and \<open>updated_met_prerequisites\<close>, booleans under
  \<open>isSameLocation\<close> and \<open>is_goal_met_this_turn\<close>, and under \<open>characters\<close> an array of
  objects with the strings \<open>name\<close>, \<open>description\<close>, \<open>appearance\<close> and \<open>opinionOfPlayer\<close>;
  in particular a reply that lacks one of the eight keys is retried. When the model was
  called and all three attempts fail, the handler answers 500 and returns the database
  as it was: no turn is written and the session row is the same.
\<close>

theorem generation_retries:
  "llm_log (submitAction e db req) \<in>
     set [[], [Attempt 1], [Attempt 1, Wait 500, Attempt 2],
          [Attempt 1, Wait 500, Attempt 2, Wait 1000, Attempt 3]] \<and>
   (\<forall>k. 0 < k \<and> Attempt (Suc k) \<in> set (llm_log (submitAction e db req)) \<longrightarrow>
        attempt_result False (llm_replies e k) = None) \<and>
   (\<forall>k. k < 3 \<and> Attempt k \<in> set (llm_log (submitAction e db req)) \<and>
        attempt_result False (llm_replies e k) = None \<longrightarrow>
        Attempt (Suc k) \<in> set (llm_log (submitAction e db req))) \<and>
   (\<forall>r. attempt_result False r = None \<longleftrightarrow>
        r = CallError \<or> r = EmptyContent \<or> r = InvalidJSON \<or>
        (\<exists>j. r = Parsed j \<and>
           \<not> (\<exists>nar img acts tod same chars met goal.
              get_prop j ''narrative'' = Some (JStr nar) \<and>
              get_prop j ''image_prompt'' = Some (JStr img) \<and>
              get_prop j ''suggested_actions'' = Some (JArr (map JStr acts)) \<and>
              get_prop j ''timeOfDay'' = Some (JStr tod) \<and>
              get_prop j ''isSameLocation'' = Some (JBool same) \<and>
              get_prop j ''characters'' = Some (JArr chars) \<and>
              (\<forall>c\<in>set chars.
                 \<exists>name description appearance opinion.
                   get_prop c ''name'' = Some (JStr name) \<and>
                   get_prop c ''description'' = Some (JStr description) \<and>
                   get_prop c ''appearance'' = Some (JStr appearance) \<and>
                   get_prop c ''opinionOfPlayer'' = Some (JStr opinion)) \<and>
              get_prop j ''updated_met_prerequisites'' = Some (JArr (map JStr met)) \<and>
              get_prop j ''is_goal_met_this_turn'' = Some (JBool goal)))) \<and>
   (\<forall>j k. k \<in> set [''narrative'', ''image_prompt'', ''suggested_actions'', ''timeOfDay'',
                      ''isSameLocation'', ''characters'', ''updated_met_prerequisites'',
                      ''is_goal_met_this_turn''] \<and>
          get_prop j k = None \<longrightarrow>
          attempt_result False (Parsed j) = None) \<and>
   (llm_log (submitAction e db req) \<noteq> [] \<and>
    attempt_result False (llm_replies e 1) = None \<and>
    attempt_result False (llm_replies e 2) = None \<and>
    attempt_result False (llm_replies e 3) = None \<longrightarrow>
      submitAction e db req =
        \<lparr> db_after = db, response = Failed (LLMFailed 3),
          llm_log = [Attempt 1, Wait 500, Attempt 2, Wait 1000, Attempt 3], published = None \<rparr> \<and>
      status (response (submitAction e db req)) = 500)"
proof -
  let ?out = "submitAction e db req"
  let ?call = "callLLM e 3 False None None"
  have iff: "\<forall>r. attempt_result False r = None \<longleftrightarrow>
        r = CallError \<or> r = EmptyContent \<or> r = InvalidJSON \<or>
        (\<exists>j. r = Parsed j \<and>
           \<not> (\<exists>nar img acts tod same chars met goal.
              get_prop j ''narrative'' = Some (JStr nar) \<and>
              get_prop j ''image_prompt'' = Some (JStr img) \<and>
              get_prop j ''suggested_actions'' = Some (JArr (map JStr acts)) \<and>
              get_prop j ''timeOfDay'' = Some (JStr tod) \<and>
              get_prop j ''isSameLocation'' = Some (JBool same) \<and>
              get_prop j ''characters'' = Some (JArr chars) \<and>
              (\<forall>c\<in>set chars.
                 \<exists>name description appearance opinion.
                   get_prop c ''name'' = Some (JStr name) \<and>
                   get_prop c ''description'' = Some (JStr description) \<and>
                   get_prop c ''appearance'' = Some (JStr appearance) \<and>
                   get_prop c ''opinionOfPlayer'' = Some (JStr opinion)) \<and>
              get_prop j ''updated_met_prerequisites'' = Some (JArr (map JStr met)) \<and>
              get_prop j ''is_goal_met_this_turn'' = Some (JBool goal)))"
    by (rule allI) (rule rejected_reply_iff)
  have missing: "\<forall>j k. k \<in> set [''narrative'', ''image_prompt'', ''suggested_actions'', ''timeOfDay'',
                      ''isSameLocation'', ''characters'', ''updated_met_prerequisites'',
                      ''is_goal_met_this_turn''] \<and>
          get_prop j k = None \<longrightarrow>
          attempt_result False (Parsed j) = None"
    using missing_key_rejected by blast
  from submitAction_log [of e db req]
  consider (idle) "llm_log ?out = []"
    | (called) "llm_log ?out \<noteq> []" and "llm_log ?out = snd ?call"
        and "\<forall>err. fst ?call = Inl err \<longrightarrow>
               ?out = \<lparr> db_after = db, response = Failed err, llm_log = snd ?call, published = None \<rparr>"
    by blast
  then have rest: "llm_log ?out \<in>
     set [[], [Attempt 1], [Attempt 1, Wait 500, Attempt 2],
          [Attempt 1, Wait 500, Attempt 2, Wait 1000, Attempt 3]] \<and>
   (\<forall>k. 0 < k \<and> Attempt (Suc k) \<in> set (llm_log ?out) \<longrightarrow>
        attempt_result False (llm_replies e k) = None) \<and>
   (\<forall>k. k < 3 \<and> Attempt k \<in> set (llm_log ?out) \<and>
        attempt_result False (llm_replies e k) = None \<longrightarrow>
        Attempt (Suc k) \<in> set (llm_log ?out)) \<and>
   (llm_log ?out \<noteq> [] \<and>
    attempt_result False (llm_replies e 1) = None \<and>
    attempt_result False (llm_replies e 2) = None \<and>
    attempt_result False (llm_replies e 3) = None \<longrightarrow>
      ?out =
        \<lparr> db_after = db, response = Failed (LLMFailed 3),
          llm_log = [Attempt 1, Wait 500, Attempt 2, Wait 1000, Attempt 3], published = None \<rparr> \<and>
      status (response ?out) = 500)"
  proof cases
    case idle
    then show ?thesis by simp
  next
    case called
    then have valid: "valid_llm_provider (ACTIVE_LLM_PROVIDER e)"
      by (auto simp: callLLM_3 split: if_splits)
    show ?thesis
    proof (cases "attempt_result False (llm_replies e 1)")
      case (Some j)
      with valid have "?call = (Inr j, [Attempt 1])" by (simp add: callLLM_3)
      with called(2) Some show ?thesis by auto
    next
      case n1: None
      show ?thesis
      proof (cases "attempt_result False (llm_replies e 2)")
        case (Some j)
        with valid n1 have "?call = (Inr j, [Attempt 1, Wait 500, Attempt 2])"
          by (simp add: callLLM_3)
        with called(2) Some n1 show ?thesis by (auto simp: less_Suc_eq numeral_3_eq_3)
      next
        case n2: None
        show ?thesis
        proof (cases "attempt_result False (llm_replies e 3)")
          case (Some j)
          with valid n1 n2
          have "?call = (Inr j, [Attempt 1, Wait 500, Attempt 2, Wait 1000, Attempt 3])"
            by (simp add: callLLM_3)
          with called(2) Some n1 n2 show ?thesis by (auto simp: less_Suc_eq numeral_3_eq_3 numeral_2_eq_2)
        next
          case n3: None
          with valid n1 n2
          have call: "?call = (Inl (LLMFailed 3), [Attempt 1, Wait 500, Attempt 2, Wait 1000, Attempt 3])"
            by (simp add: callLLM_3)
          with called(3) have "?out =
              \<lparr> db_after = db, response = Failed (LLMFailed 3),
                llm_log = [Attempt 1, Wait 500, Attempt 2, Wait 1000, Attempt 3], published = None \<rparr>"
            by simp
          then show ?thesis using n1 n2 n3 by (auto simp: less_Suc_eq numeral_3_eq_3 numeral_2_eq_2)
        qed
      qed
    qed
  qed
  then have c1: "llm_log ?out \<in>
     set [[], [Attempt 1], [Attempt 1, Wait 500, Attempt 2],
          [Attempt 1, Wait 500, Attempt 2, Wait 1000, Attempt 3]]"
    and c2: "\<forall>k. 0 < k \<and> Attempt (Suc k) \<in> set (llm_log ?out) \<longrightarrow>
        attempt_result False (llm_replies e k) = None"
    and c3: "\<forall>k. k < 3 \<and> Attempt k \<in> set (llm_log ?out) \<and>
        attempt_result False (llm_replies e k) = None \<longrightarrow>
        Attempt (Suc k) \<in> set (llm_log ?out)"
    and c6: "llm_log ?out \<noteq> [] \<and>
    attempt_result False (llm_replies e 1) = None \<and>
    attempt_result False (llm_replies e 2) = None \<and>
    attempt_result False (llm_replies e 3) = None \<longrightarrow>
      ?out =
        \<lparr> db_after = db, response = Failed (LLMFailed 3),
          llm_log = [Attempt 1, Wait 500, Attempt 2, Wait 1000, Attempt 3], published = None \<rparr> \<and>
      status (response ?out) = 500"
    by blast+
  show ?thesis
    by (intro conjI) (fact c1 c2 c3 iff missing c6)+
qed


theorem generation_retries_witness:
  "submitAction (world ''google'' flawed_replies (Some ''QUJD'') {}) (solo_db [] [0]) (act ''u0'' 0) =
     \<lparr> db_after = solo_db [] [0], response = Failed (LLMFailed 3),
       llm_log = [Attempt 1, Wait 500, Attempt 2, Wait 1000, Attempt 3], published = None \<rparr> \<and>
   llm_log (submitAction (world ''google'' recovering_replies (Some ''QUJD'') {}) (solo_db [] [0])
              (act ''u0'' 0)) = [Attempt 1, Wait 500, Attempt 2] \<and>
   status (response (submitAction (world ''google'' recovering_replies (Some ''QUJD'') {})
                       (solo_db [] [0]) (act ''u0'' 0))) = 200"
proof -
  let ?e = "world ''google'' flawed_replies (Some ''QUJD'') {}"
  let ?e' = "world ''google'' recovering_replies (Some ''QUJD'') {}"
  note facts = generation_retries [of ?e "solo_db [] [0]" "act ''u0'' 0"]
  note missing = facts [THEN conjunct2, THEN conjunct2, THEN conjunct2, THEN conjunct2, THEN conjunct1]
  note exhausted = facts [THEN conjunct2, THEN conjunct2, THEN conjunct2, THEN conjunct2, THEN conjunct2]
  have called: "llm_log (submitAction ?e (solo_db [] [0]) (act ''u0'' 0)) \<noteq> []"
    by code_simp
  have key: "''narrative'' \<in> set [''narrative'', ''image_prompt'', ''suggested_actions'', ''timeOfDay'',
                      ''isSameLocation'', ''characters'', ''updated_met_prerequisites'',
                      ''is_goal_met_this_turn'']"
    by simp
  have gone: "get_prop (without_key ''narrative'' (turn_reply [] False)) ''narrative'' = None"
    by code_simp
  from missing key gone
  have "attempt_result False (Parsed (without_key ''narrative'' (turn_reply [] False))) = None"
    by blast
  moreover have "llm_replies ?e 1 = Parsed (without_key ''narrative'' (turn_reply [] False))"
    by (simp add: world_def flawed_replies_def)
  ultimately have one: "attempt_result False (llm_replies ?e 1) = None"
    by (simp only:)
  have two: "attempt_result False (llm_replies ?e 2) = None"
    and three: "attempt_result False (llm_replies ?e 3) = None"
    by code_simp+
  from exhausted called one two three
  have "submitAction ?e (solo_db [] [0]) (act ''u0'' 0) =
     \<lparr> db_after = solo_db [] [0], response = Failed (LLMFailed 3),
       llm_log = [Attempt 1, Wait 500, Attempt 2, Wait 1000, Attempt 3], published = None \<rparr>"
    by blast
  moreover have ok: "status (response (submitAction ?e' (solo_db [] [0]) (act ''u0'' 0))) = 200"
    and log: "llm_log (submitAction ?e' (solo_db [] [0]) (act ''u0'' 0)) = [Attempt 1, Wait 500, Attempt 2]"
    by code_simp+
  ultimately show ?thesis by simp
qed

subsection \<open>A submission against an earlier turn\<close>

lemma gapless_turn:
  assumes "gapless db sid" and "0 \<le> k" and "k \<le> latest_turn_index db sid"
  shows "list_ex (\<lambda>t. turn_session_id t = sid \<and> turn_index t = k) (turns db)"
  using assms by (simp add: gapless_def list_all_iff)

lemma stale_process_action:
  assumes "gapless db sid" and "src < latest_turn_index db sid"
  shows "\<exists>err log. process_action e db sid session players rp uid action src = (Inl err, log) \<and>
           (0 \<le> src \<longrightarrow> err \<noteq> InvalidTurnIndex src (latest_turn_index db sid))"
proof (cases "process_action e db sid session players rp uid action src")
  case (Pair r log)
  show ?thesis
  proof (cases r)
    case (Inl err)
    have "err \<noteq> InvalidTurnIndex src (latest_turn_index db sid)" if "0 \<le> src"
      using Pair Inl that assms(2)
      by (auto simp: process_action_def Let_def insert_turn_def callLLM_def generateImageWithAppropriateProvider_def
            generateImageWithOpenAI_def
            split: if_splits prod.splits sum.splits option.splits)
    with Pair Inl show ?thesis by simp
  next
    case (Inr db1)
    with Pair process_action_Inr [of e db sid session players rp uid action src db1 log]
    obtain j url where "0 \<le> src"
      and ins: "insert_turn db (turnParams e sid j url action uid rp (src + 1)) =
             Inr (db\<lparr>turns := turns db @ [turnParams e sid j url action uid rp (src + 1)]\<rparr>)"
      by auto
    with assms have "list_ex (\<lambda>t. turn_session_id t = sid \<and> turn_index t = src + 1) (turns db)"
      by (intro gapless_turn) simp_all
    with ins show ?thesis
      by (auto simp: insert_turn_def turnParams_def list_ex_iff split: if_splits)
  qed
qed

lemma skip_turn_turns [simp]: "turns (db_after (skip_turn e db sid session players)) = turns db"
  by (simp add: skip_turn_def Let_def reply_def split: option.splits)

lemma skip_turn_response:
  assumes "get_session db sid = Some session"
  shows "(\<exists>st. response (skip_turn e db sid session players) = TurnSkipped st) \<or>
         skip_turn e db sid session players = reply db NoActivePlayers"
proof (cases "skip_scan players (is_connected e sid) (length players) 0
                (js_number (current_player_index session)) = - 1")
  case True
  then show ?thesis by (simp add: skip_turn_paused)
next
  case False
  from skip_turn_found [OF assms refl False] obtain st where
    "response (skip_turn e db sid session players) = TurnSkipped st"
    by fastforce
  then show ?thesis by blast
qed

text \<open>
  C2, as the code has it. Take a call whose turn index is below the latest index of the
  session, on a gapless ledger. No turn is appended: the ledger after the call is the
  ledger before it, and the answer is never a new turn. The index validation is not
  what stops it: an index from 0 up to the latest passes the check "Must be between 0
  and latest". Unless the answer is the "turn skipped" one of step 4b, which does not
  look at the turn index, the whole database is returned as it was and the status is
  not 200.
\<close>

theorem stale_index_appends_nothing:
  assumes "body_sessionId req = Some sid" and "body_turnIndex req = Some src"
      and "src < latest_turn_index db sid" and "gapless db sid"
  shows "turns (db_after (submitAction e db req)) = turns db \<and>
         (\<forall>st. response (submitAction e db req) \<noteq> StateUpdate st) \<and>
         (0 \<le> src \<longrightarrow>
            response (submitAction e db req) \<noteq> Failed (InvalidTurnIndex src (latest_turn_index db sid))) \<and>
         ((\<forall>st. response (submitAction e db req) \<noteq> TurnSkipped st) \<longrightarrow>
            db_after (submitAction e db req) = db \<and>
            status (response (submitAction e db req)) \<noteq> 200)"
proof (cases rule: submitAction_cases [of e db req])
  case (rejected r)
  then show ?thesis by (auto simp: reply_def)
next
  case (handled sid' action src' session rp)
  with assms(1,2) have [simp]: "sid' = sid" "src' = src" by simp_all
  let ?players = "get_players db sid"
  show ?thesis
  proof (cases "isCurrentPlayerConnected e sid session ?players")
    case False
    with handled(9) have out: "submitAction e db req = skip_turn e db sid session ?players"
      by (simp add: action_or_skip_def)
    from skip_turn_response [OF handled(6), of e ?players] show ?thesis
      unfolding out by (auto simp: skip_turn_not_update reply_def)
  next
    case True
    with handled(9) have out: "submitAction e db req =
        action_branch e db sid session ?players rp (requestUserId req) action src"
      by (simp add: action_or_skip_def)
    from stale_process_action [OF assms(4,3), of e session ?players rp "requestUserId req" action]
    obtain err log where
      run: "process_action e db sid session ?players rp (requestUserId req) action src = (Inl err, log)"
      and err: "0 \<le> src \<longrightarrow> err \<noteq> InvalidTurnIndex src (latest_turn_index db sid)"
      by blast
    from action_branch_failed [OF run] err show ?thesis
      unfolding out by simp
  qed
qed

theorem stale_index_appends_nothing_witness:
  "response (submitAction (world ''google'' (\<lambda>_. Parsed (turn_reply [] False)) (Some ''QUJD'') {})
               (solo_db [] [0, 1]) (act ''u0'' 0)) = Failed ConstraintFailed \<and>
   db_after (submitAction (world ''google'' (\<lambda>_. Parsed (turn_reply [] False)) (Some ''QUJD'') {})
               (solo_db [] [0, 1]) (act ''u0'' 0)) = solo_db [] [0, 1]"
proof -
  let ?e = "world ''google'' (\<lambda>_. Parsed (turn_reply [] False)) (Some ''QUJD'') {}"
  let ?out = "submitAction ?e (solo_db [] [0, 1]) (act ''u0'' 0)"
  have req: "body_sessionId (act ''u0'' 0) = Some ''s1''" "body_turnIndex (act ''u0'' 0) = Some 0"
    by (simp_all add: act_def)
  have stale: "0 < latest_turn_index (solo_db [] [0, 1]) ''s1''"
    by code_simp
  have ledger: "gapless (solo_db [] [0, 1]) ''s1''"
    by code_simp
  have answer: "response ?out = Failed ConstraintFailed"
    by code_simp
  with stale_index_appends_nothing [OF req stale ledger, of ?e] show ?thesis
    by simp
qed

text \<open>
  C2 as stated fails. The ledger holds the turns 0 and 1; the current player \<open>u0\<close>, who
  holds no socket while \<open>u1\<close> does, submits against turn 0. The call is not rejected: it
  takes the skip path and is answered 200 with \<open>current_player_index\<close> moved to 1.
\<close>

theorem stale_index_skip_counterexample:
  "latest_turn_index (party_db [] [0, 1]) ''s1'' = 1 \<and>
   body_turnIndex (act ''u0'' 0) = Some 0 \<and>
   status (response (submitAction (world ''google'' (\<lambda>_. Parsed (turn_reply [] False)) (Some ''QUJD'') {''u1''})
                       (party_db [] [0, 1]) (act ''u0'' 0))) = 200 \<and>
   response (submitAction (world ''google'' (\<lambda>_. Parsed (turn_reply [] False)) (Some ''QUJD'') {''u1''})
               (party_db [] [0, 1]) (act ''u0'' 0))
     = TurnSkipped (the (published (submitAction (world ''google'' (\<lambda>_. Parsed (turn_reply [] False)) (Some ''QUJD'') {''u1''})
               (party_db [] [0, 1]) (act ''u0'' 0)))) \<and>
   map_option current_player_index
     (get_session
        (db_after (submitAction (world ''google'' (\<lambda>_. Parsed (turn_reply [] False)) (Some ''QUJD'') {''u1''})
                     (party_db [] [0, 1]) (act ''u0'' 0))) ''s1'') = Some (Some 1)"
  by code_simp

subsection \<open>The ledger invariants\<close>

text \<open>
  Whatever the call and its outcome, the ledger keeps at most one turn for each session
  and index (the \<open>UNIQUE\<close> constraint of the table), and a database whose ledgers are
  all gapless stays so: a turn is only ever appended at the latest index plus one.
\<close>

lemma insert_turn_distinct:
  assumes "distinct (map (\<lambda>t. (turn_session_id t, turn_index t)) (turns db))"
      and "insert_turn db row = Inr db1"
  shows "distinct (map (\<lambda>t. (turn_session_id t, turn_index t)) (turns db1))"
  using assms by (fastforce simp: insert_turn_def list_ex_iff split: if_splits)

lemma action_branch_turns:
  "turns (db_after (action_branch e db sid session players rp uid action src)) = turns db \<or>
   (\<exists>row. insert_turn db row = Inr (db\<lparr>turns := turns db @ [row]\<rparr>) \<and>
          turns (db_after (action_branch e db sid session players rp uid action src)) = turns db @ [row])"
proof (cases "process_action e db sid session players rp uid action src")
  case (Pair r log)
  show ?thesis
  proof (cases r)
    case (Inl err)
    with Pair show ?thesis by (simp add: action_branch_def)
  next
    case (Inr db1)
    with Pair process_action_Inr [of e db sid session players rp uid action src db1 log]
    obtain row where "insert_turn db row = Inr (db\<lparr>turns := turns db @ [row]\<rparr>)"
      and "turns db1 = turns db @ [row]"
      by auto
    moreover have "db_after (action_branch e db sid session players rp uid action src) = db1"
      using Pair Inr by (simp add: action_branch_def split: option.splits)
    ultimately show ?thesis by auto
  qed
qed

lemma one_turn_per_index:
  assumes "distinct (map (\<lambda>t. (turn_session_id t, turn_index t)) (turns db))"
  shows "distinct (map (\<lambda>t. (turn_session_id t, turn_index t)) (turns (db_after (submitAction e db req))))"
proof (cases rule: submitAction_cases [of e db req])
  case (rejected r)
  with assms show ?thesis by (simp add: reply_def)
next
  case (handled sid action src session rp)
  show ?thesis
  proof (cases "isCurrentPlayerConnected e sid session (get_players db sid)")
    case False
    with handled(9) assms show ?thesis by (simp add: action_or_skip_def)
  next
    case True
    with handled(9) have out: "submitAction e db req =
        action_branch e db sid session (get_players db sid) rp (requestUserId req) action src"
      by (simp add: action_or_skip_def)
    from action_branch_turns [of e db sid session "get_players db sid" rp "requestUserId req" action src]
    show ?thesis
    proof
      assume "turns (db_after (action_branch e db sid session (get_players db sid) rp
                (requestUserId req) action src)) = turns db"
      with assms out show ?thesis by simp
    next
      assume "\<exists>row. insert_turn db row = Inr (db\<lparr>turns := turns db @ [row]\<rparr>) \<and>
          turns (db_after (action_branch e db sid session (get_players db sid) rp
                (requestUserId req) action src)) = turns db @ [row]"
      then obtain row where ins: "insert_turn db row = Inr (db\<lparr>turns := turns db @ [row]\<rparr>)"
        and t: "turns (db_after (submitAction e db req)) = turns db @ [row]"
        using out by auto
      from insert_turn_distinct [OF assms ins] t show ?thesis by simp
    qed
  qed
qed

lemma max_index_append:
  "max_index (xs @ [x]) = Some (case max_index xs of None \<Rightarrow> x | Some m \<Rightarrow> max m x)"
  by (induction xs) (auto split: option.splits)

lemma latest_turn_index_append:
  "latest_turn_index (db\<lparr>turns := turns db @ [row]\<rparr>) sid =
     (if turn_session_id row = sid
      then (case max_index (map turn_index (filter (\<lambda>t. turn_session_id t = sid) (turns db))) of
              None \<Rightarrow> turn_index row
            | Some m \<Rightarrow> max m (turn_index row))
      else latest_turn_index db sid)"
  by (simp add: latest_turn_index_def max_index_append)

lemma latest_update_session [simp]:
  "latest_turn_index (update_session db sid f) sid' = latest_turn_index db sid'"
  by (simp add: latest_turn_index_def)

lemma gapless_update_session [simp]: "gapless (update_session db sid f) sid' = gapless db sid'"
  by (simp add: gapless_def)

lemma gapless_append:
  assumes "gapless db sid'" and "turn_session_id row = sid" and "turn_index row = src + 1"
      and "0 \<le> src" and "src \<le> latest_turn_index db sid"
      and "\<not> list_ex (\<lambda>t. turn_session_id t = sid \<and> turn_index t = src + 1) (turns db)"
      and "gapless db sid"
  shows "gapless (db\<lparr>turns := turns db @ [row]\<rparr>) sid'"
proof (cases "sid' = sid")
  case False
  with assms(1,2) show ?thesis
    by (simp add: gapless_def latest_turn_index_append)
next
  case True
  have "src = latest_turn_index db sid"
  proof (rule ccontr)
    assume "src \<noteq> latest_turn_index db sid"
    with assms(5) have "src + 1 \<le> latest_turn_index db sid" by simp
    with assms(4,7) have "list_ex (\<lambda>t. turn_session_id t = sid \<and> turn_index t = src + 1) (turns db)"
      by (intro gapless_turn) simp_all
    with assms(6) show False by simp
  qed
  moreover from this assms(4) obtain m where
    m: "max_index (map turn_index (filter (\<lambda>t. turn_session_id t = sid) (turns db))) = Some m"
    by (cases "max_index (map turn_index (filter (\<lambda>t. turn_session_id t = sid) (turns db)))")
       (auto simp: latest_turn_index_def)
  ultimately have "m = src"
    by (simp add: latest_turn_index_def)
  moreover have "latest_turn_index (db\<lparr>turns := turns db @ [row]\<rparr>) sid = max m (turn_index row)"
    using assms(2) m by (simp add: latest_turn_index_append)
  ultimately have new: "latest_turn_index (db\<lparr>turns := turns db @ [row]\<rparr>) sid = src + 1"
    using assms(3) by simp
  have "list_ex (\<lambda>t. turn_session_id t = sid \<and> turn_index t = k) (turns db @ [row])"
    if "0 \<le> k" "k \<le> src + 1" for k
  proof (cases "k = src + 1")
    case True
    with assms(2,3) show ?thesis by simp
  next
    case False
    with that \<open>src = latest_turn_index db sid\<close> have "k \<le> latest_turn_index db sid" by simp
    with assms(7) that(1) have "list_ex (\<lambda>t. turn_session_id t = sid \<and> turn_index t = k) (turns db)"
      by (intro gapless_turn)
    then show ?thesis by simp
  qed
  with True new show ?thesis
    by (simp add: gapless_def list_all_iff)
qed

lemma skip_turn_gapless [simp]:
  "gapless (db_after (skip_turn e db sid session players)) s = gapless db s"
  by (simp add: skip_turn_def Let_def reply_def split: option.splits)

lemma action_branch_gapless:
  assumes "\<And>s. gapless db s"
  shows "gapless (db_after (action_branch e db sid session players rp uid action src)) s"
proof (cases "process_action e db sid session players rp uid action src")
  case (Pair r log)
  show ?thesis
  proof (cases r)
    case (Inl err)
    with Pair assms show ?thesis by (simp add: action_branch_def)
  next
    case (Inr db1)
    with Pair process_action_Inr [of e db sid session players rp uid action src db1 log]
    obtain j url where src: "0 \<le> src" "src \<le> latest_turn_index db sid"
      and ins: "insert_turn db (turnParams e sid j url action uid rp (src + 1)) =
             Inr (db\<lparr>turns := turns db @ [turnParams e sid j url action uid rp (src + 1)]\<rparr>)"
      and db1: "db1 = update_session
                  (db\<lparr>turns := turns db @ [turnParams e sid j url action uid rp (src + 1)]\<rparr>)
                  sid (session_update e session players j)"
      by auto
    let ?row = "turnParams e sid j url action uid rp (src + 1)"
    have row: "turn_session_id ?row = sid" "turn_index ?row = src + 1"
      by (simp_all add: turnParams_def)
    from ins have free: "\<not> list_ex (\<lambda>t. turn_session_id t = sid \<and> turn_index t = src + 1) (turns db)"
      by (auto simp: insert_turn_def row list_ex_iff split: if_splits)
    have "gapless (db\<lparr>turns := turns db @ [?row]\<rparr>) s"
      using assms row src free by (intro gapless_append [where sid = sid and src = src]) simp_all
    moreover have "db_after (action_branch e db sid session players rp uid action src) = db1"
      using Pair Inr by (simp add: action_branch_def split: option.splits)
    ultimately show ?thesis using db1 by simp
  qed
qed

lemma gapless_preserved:
  assumes "\<And>s. gapless db s"
  shows "gapless (db_after (submitAction e db req)) s"
proof (cases rule: submitAction_cases [of e db req])
  case (rejected r)
  with assms show ?thesis by (simp add: reply_def)
next
  case (handled sid action src session rp)
  with assms action_branch_gapless [of db e sid session "get_players db sid" rp "requestUserId req" action src s]
  show ?thesis
    by (simp add: action_or_skip_def)
qed

subsection \<open>A failing image service\<close>

text \<open>
  With the providers \<open>google\<close> and \<open>google-flash\<close> the generator functions catch the
  failure and return a placeholder reference; with \<open>openai\<close> the failure is thrown, and
  no call made under it is answered with a new turn.
\<close>

lemma caught_image_failure:
  assumes "ACTIVE_IMAGE_PROVIDER e = ''google'' \<or> ACTIVE_IMAGE_PROVIDER e = ''google-flash''"
  shows "\<exists>url. generateImageWithAppropriateProvider e turnData = Inr url"
  using assms by (auto simp: generateImageWithAppropriateProvider_def)

lemma thrown_image_failure:
  assumes "ACTIVE_IMAGE_PROVIDER e = ''openai''" and "image_api e = None"
  shows "response (submitAction e db req) \<noteq> StateUpdate st"
proof
  assume "response (submitAction e db req) = StateUpdate st"
  then obtain j url where "generateImageWithAppropriateProvider e j = Inr url"
    by (rule submitAction_StateUpdate)
  with assms show False
    by (simp add: generateImageWithAppropriateProvider_def generateImageWithOpenAI_def)
qed

text \<open>
  C10. The single player submits an action, the language model answers well, and the
  image service fails. With the image provider \<open>openai\<close> the call is answered 500, the
  database is the one before the call and the ledger still holds turn 0 only. The same
  call with the provider \<open>google\<close> or \<open>google-flash\<close> is answered 200 and turn 1 is
  stored with the placeholder reference.
\<close>

theorem openai_image_failure_fails_turn:
  "submitAction (world ''openai'' (\<lambda>_. Parsed (turn_reply [] False)) None {}) (solo_db [] [0]) (act ''u0'' 0) =
     \<lparr> db_after = solo_db [] [0], response = Failed ImageGenerationFailed,
       llm_log = [Attempt 1], published = None \<rparr> \<and>
   status (Failed ImageGenerationFailed) = 500 \<and>
   map turn_index (turns (solo_db [] [0])) = [0] \<and>
   status (response (submitAction (world ''google'' (\<lambda>_. Parsed (turn_reply [] False)) None {})
                       (solo_db [] [0]) (act ''u0'' 0))) = 200 \<and>
   map (\<lambda>t. (turn_index t, image_url t))
     (turns (db_after (submitAction (world ''google'' (\<lambda>_. Parsed (turn_reply [] False)) None {})
                         (solo_db [] [0]) (act ''u0'' 0)))) =
     [(0, ''data:image/png;base64,AAAA''),
      (1, ''https://via.placeholder.com/1024x576.png?text=Image+Generation+Failed&ratio=16x9'')] \<and>
   map (\<lambda>t. (turn_index t, image_url t))
     (turns (db_after (submitAction (world ''google-flash'' (\<lambda>_. Parsed (turn_reply [] False)) None {})
                         (solo_db [] [0]) (act ''u0'' 0)))) =
     [(0, ''data:image/png;base64,AAAA''),
      (1, ''https://via.placeholder.com/1024x576.png?text=Image+Generation+Failed'')]"
  by code_simp

end
